theory Spec2Isabelle
  imports Complex_Main "HOL-Library.Sublist"
begin

section \<open>Values of the decoded vendor XML\<close>

text \<open>
  The proxy works on what \<^verbatim>\<open>xml2js\<close> returns: strings, arrays and objects with string
  keys. \<^verbatim>\<open>undefined\<close>, \<^verbatim>\<open>null\<close> and booleans are part of the type because the code
  tests for them, and a number can be reached through the \<^verbatim>\<open>length\<close> of an array or of a
  string, so the numbers of this type are the natural numbers. An object is the list of
  its own properties; a key is looked up with \<open>map_of\<close>, so the first binding of a key
  counts. The members a value inherits from a prototype (\<^verbatim>\<open>constructor\<close>, \<^verbatim>\<open>toString\<close>,
  \<^verbatim>\<open>map\<close>, ...) are functions and prototype objects, which are no values of this type:
  a property read is modelled where it finds an own property or nothing, and the keys
  outside of that are named in "Inherited members" below. \<^verbatim>\<open>String(o)\<close> of an object is
  \<^verbatim>\<open>[object Object]\<close>, as for a plain object (an object built without a prototype, whose
  conversion throws, is not modelled). Strings are lists of 8-bit characters: the model
  is exact for ASCII text.
\<close>

datatype jsval =
    Undefined
  | Null
  | Bool bool
  | Num nat
  | Str string
  | Arr "jsval list"
  | Obj "(string \<times> jsval) list"

text \<open>JavaScript's truthiness, as \<^verbatim>\<open>!v\<close>, \<^verbatim>\<open>v || d\<close> and \<^verbatim>\<open>filter(Boolean)\<close> read it.\<close>

fun truthy :: "jsval \<Rightarrow> bool" where
  "truthy Undefined = False"
| "truthy Null = False"
| "truthy (Bool b) = b"
| "truthy (Num n) = (n \<noteq> 0)"
| "truthy (Str s) = (s \<noteq> [])"
| "truthy (Arr xs) = True"
| "truthy (Obj kvs) = True"

text \<open>\<^verbatim>\<open>a || b\<close> on values.\<close>

definition or_else :: "jsval \<Rightarrow> jsval \<Rightarrow> jsval" where
  "or_else a b = (if truthy a then a else b)"

subsection \<open>Property access\<close>

definition is_digit :: "char \<Rightarrow> bool" where
  "is_digit c = (c \<in> set ''0123456789'')"

definition digit_val :: "char \<Rightarrow> nat" where
  "digit_val c = of_char c - 48"

text \<open>The value of a string of decimal digits, most significant digit first.\<close>

definition digits_val :: "string \<Rightarrow> nat" where
  "digits_val ds = foldl (\<lambda>n c. 10 * n + digit_val c) 0 ds"

text \<open>
  A property key is an index of an array or of a string when it is the canonical decimal
  form of a number: \<^verbatim>\<open>"0"\<close>, or digits that do not start with \<^verbatim>\<open>0\<close>.
\<close>

definition array_index :: "string \<Rightarrow> nat option" where
  "array_index k =
     (if k = ''0'' then Some 0
      else if k \<noteq> [] \<and> list_all is_digit k \<and> hd k \<noteq> CHR ''0'' then Some (digits_val k)
      else None)"

text \<open>
  \<^verbatim>\<open>v?.[key]\<close>: \<^verbatim>\<open>undefined\<close> on \<^verbatim>\<open>undefined\<close> and \<^verbatim>\<open>null\<close>, an own property of an object,
  an element or the length of an array or a string, and \<^verbatim>\<open>undefined\<close> for everything else.
  This is the value the code reads for every key that is an own property of the value
  or that its prototype chain does not hold (\<open>inherited\<close> below); for a key found on
  the prototype chain the code reads a built-in function or object instead.
\<close>

fun opt_index :: "jsval \<Rightarrow> string \<Rightarrow> jsval" where
  "opt_index Undefined k = Undefined"
| "opt_index Null k = Undefined"
| "opt_index (Bool b) k = Undefined"
| "opt_index (Num n) k = Undefined"
| "opt_index (Str s) k =
     (if k = ''length'' then Num (length s)
      else case array_index k of
             Some i \<Rightarrow> if i < length s then Str [s ! i] else Undefined
           | None \<Rightarrow> Undefined)"
| "opt_index (Arr xs) k =
     (if k = ''length'' then Num (length xs)
      else case array_index k of
             Some i \<Rightarrow> if i < length xs then xs ! i else Undefined
           | None \<Rightarrow> Undefined)"
| "opt_index (Obj kvs) k = (case map_of kvs k of Some v \<Rightarrow> v | None \<Rightarrow> Undefined)"

text \<open>
  \<^verbatim>\<open>v.key\<close> without the \<^verbatim>\<open>?\<close>: reading a property of \<^verbatim>\<open>undefined\<close> or \<^verbatim>\<open>null\<close> throws a
  TypeError.
\<close>

datatype error = TypeError | AuthError string | UpstreamError string

definition dot :: "jsval \<Rightarrow> string \<Rightarrow> error + jsval" where
  "dot v k = (if v = Undefined \<or> v = Null then Inl TypeError else Inr (opt_index v k))"

subsection \<open>Inherited members\<close>

text \<open>
  A property read looks for an own property first and then along the prototype chain of
  the value: \<^verbatim>\<open>['x'].map\<close>, \<^verbatim>\<open>'abc'.trim\<close> and \<^verbatim>\<open>({}).constructor\<close> are functions. The lists
  below name the string-keyed members of the built-in prototypes (ECMAScript 2024 with
  the legacy members of its Annex B and of the engines; \<^verbatim>\<open>length\<close> of an array or a string
  is an own property). They are upper bounds: an older engine lacks some of the names,
  and an object built without a prototype inherits nothing.
\<close>

definition object_prototype :: "string list" where
  "object_prototype =
     [''constructor'', ''hasOwnProperty'', ''isPrototypeOf'', ''propertyIsEnumerable'',
      ''toLocaleString'', ''toString'', ''valueOf'', ''__proto__'',
      ''__defineGetter__'', ''__defineSetter__'', ''__lookupGetter__'',
      ''__lookupSetter__'']"

definition array_prototype :: "string list" where
  "array_prototype =
     [''constructor'', ''at'', ''concat'', ''copyWithin'', ''entries'', ''every'', ''fill'',
      ''filter'', ''find'', ''findIndex'', ''findLast'', ''findLastIndex'', ''flat'',
      ''flatMap'', ''forEach'', ''group'', ''groupBy'', ''groupToMap'', ''includes'',
      ''indexOf'', ''join'', ''keys'', ''lastIndexOf'', ''map'', ''pop'', ''push'',
      ''reduce'', ''reduceRight'', ''reverse'', ''shift'', ''slice'', ''some'', ''sort'',
      ''splice'', ''toLocaleString'', ''toReversed'', ''toSorted'', ''toSpliced'',
      ''toString'', ''unshift'', ''values'', ''with'']"

definition string_prototype :: "string list" where
  "string_prototype =
     [''constructor'', ''anchor'', ''at'', ''big'', ''blink'', ''bold'', ''charAt'',
      ''charCodeAt'', ''codePointAt'', ''concat'', ''endsWith'', ''fixed'', ''fontcolor'',
      ''fontsize'', ''includes'', ''indexOf'', ''isWellFormed'', ''italics'',
      ''lastIndexOf'', ''link'', ''localeCompare'', ''match'', ''matchAll'', ''normalize'',
      ''padEnd'', ''padStart'', ''repeat'', ''replace'', ''replaceAll'', ''search'',
      ''slice'', ''small'', ''split'', ''startsWith'', ''strike'', ''sub'', ''substr'',
      ''substring'', ''sup'', ''toLocaleLowerCase'', ''toLocaleUpperCase'',
      ''toLowerCase'', ''toString'', ''toUpperCase'', ''toWellFormed'', ''trim'',
      ''trimEnd'', ''trimLeft'', ''trimRight'', ''trimStart'', ''valueOf'']"

definition number_prototype :: "string list" where
  "number_prototype =
     [''constructor'', ''toExponential'', ''toFixed'', ''toLocaleString'', ''toPrecision'',
      ''toString'', ''valueOf'']"

definition boolean_prototype :: "string list" where
  "boolean_prototype = [''constructor'', ''toString'', ''valueOf'']"

text \<open>The names a value may find on its prototype chain.\<close>

fun prototype_chain :: "jsval \<Rightarrow> string list" where
  "prototype_chain Undefined = []"
| "prototype_chain Null = []"
| "prototype_chain (Bool b) = boolean_prototype @ object_prototype"
| "prototype_chain (Num n) = number_prototype @ object_prototype"
| "prototype_chain (Str s) = string_prototype @ object_prototype"
| "prototype_chain (Arr xs) = array_prototype @ object_prototype"
| "prototype_chain (Obj kvs) = object_prototype"

text \<open>\<^verbatim>\<open>Object.hasOwn(v, key)\<close> for the values of the model.\<close>

fun own_property :: "jsval \<Rightarrow> string \<Rightarrow> bool" where
  "own_property Undefined k = False"
| "own_property Null k = False"
| "own_property (Bool b) k = False"
| "own_property (Num n) k = False"
| "own_property (Str s) k =
     (k = ''length'' \<or> (case array_index k of Some i \<Rightarrow> i < length s | None \<Rightarrow> False))"
| "own_property (Arr xs) k =
     (k = ''length'' \<or> (case array_index k of Some i \<Rightarrow> i < length xs | None \<Rightarrow> False))"
| "own_property (Obj kvs) k = (map_of kvs k \<noteq> None)"

text \<open>
  A read of \<open>k\<close> on \<open>v\<close> may reach a built-in member when \<open>k\<close> is no own property of \<open>v\<close>
  and is a name of its prototype chain; own properties shadow inherited ones.
\<close>

definition inherited :: "jsval \<Rightarrow> string \<Rightarrow> bool" where
  "inherited v k = (\<not> own_property v k \<and> k \<in> set (prototype_chain v))"

text \<open>
  The chain of reads \<^verbatim>\<open>v?.[k1]?.[k2]...\<close> stays within own properties and absent keys:
  no read of it may reach a built-in member. The reads after an \<^verbatim>\<open>undefined\<close> are reads
  of \<^verbatim>\<open>undefined\<close>, which inherits nothing.
\<close>

fun own_reads :: "jsval \<Rightarrow> string list \<Rightarrow> bool" where
  "own_reads v [] = True"
| "own_reads v (k # ks) = (\<not> inherited v k \<and> own_reads (opt_index v k) ks)"

text \<open>
  The keys the two servers read from a decoded value: by property access
  (\<^verbatim>\<open>propertiesData?.properties?.property\<close>, \<^verbatim>\<open>propertyRef.prop_id?.[0]\<close>,
  \<^verbatim>\<open>propertyRef.url?.[0]\<close>, \<^verbatim>\<open>propertyData.property\<close>, \<^verbatim>\<open>property.address?.[0]\<close>,
  \<^verbatim>\<open>property.price?.[0]\<close>, \<^verbatim>\<open>property.files\<close>, \<^verbatim>\<open>property.bullets\<close>) and as the path of a
  call of \<^verbatim>\<open>get\<close>.
\<close>

definition server_keys :: "string list" where
  "server_keys =
     [''properties'', ''property'', ''prop_id'', ''url'', ''0'', ''address'', ''price'',
      ''files'', ''bullets'', ''letting_type'', ''market'', ''description'', ''title'',
      ''bedrooms'', ''web_status'', ''type'', ''bullet'', ''display'', ''street'',
      ''rm_type'', ''town'', ''postcode'', ''latitude'', ''longitude'', ''bathrooms'',
      ''$t'', ''deposit'', ''available'', ''furnished'', ''epcrating_current'',
      ''counciltaxband'']"

subsection \<open>The field accessor\<close>

text \<open>\<^verbatim>\<open>path.split('.')\<close>: the pieces between the dots; never the empty list.\<close>

fun split_dot :: "string \<Rightarrow> string list" where
  "split_dot [] = [[]]"
| "split_dot (c # cs) =
     (if c = CHR ''.'' then [] # split_dot cs
      else case split_dot cs of
             w # ws \<Rightarrow> (c # w) # ws
           | [] \<Rightarrow> [[c]])"

text \<open>
  The loop of \<^verbatim>\<open>get\<close> (index.js lines 23-26): \<open>None\<close> is the early \<^verbatim>\<open>return null\<close>,
  \<open>Some result\<close> the value of \<^verbatim>\<open>result\<close> when the loop ends.
\<close>

fun get_loop :: "jsval \<Rightarrow> string list \<Rightarrow> jsval option" where
  "get_loop result [] = Some result"
| "get_loop result (key # keys) =
     (let result' = opt_index result key
      in if result' = Undefined then None else get_loop result' keys)"

text \<open>
  \<^verbatim>\<open>
  function get(obj, path) {
    const keys = path.split('.');
    let result = obj;
    for (const key of keys) {
      result = result?.[key];
      if (result === undefined) return null;
    }
    if (Array.isArray(result) && result.length > 0) return result[0];
    return result || null;
  }
  \<close>
\<close>

definition get :: "jsval \<Rightarrow> string \<Rightarrow> jsval" where
  "get obj path =
     (case get_loop obj (split_dot path) of
        None \<Rightarrow> Null
      | Some result \<Rightarrow>
          (case result of
             Arr (x # xs) \<Rightarrow> x
           | _ \<Rightarrow> or_else result Null))"

text \<open>
  The accessor as the specification words it: "if the current value is an array with at
  least one element, transparently substitutes its first element before descending to
  the next segment; returns null the moment any segment is absent or undefined". What is
  returned after the last segment is taken from the code.
\<close>

definition first_of_array :: "jsval \<Rightarrow> jsval" where
  "first_of_array v = (case v of Arr (x # xs) \<Rightarrow> x | _ \<Rightarrow> v)"

fun get_loop_spec :: "jsval \<Rightarrow> string list \<Rightarrow> jsval option" where
  "get_loop_spec cur [] = Some cur"
| "get_loop_spec cur (key # keys) =
     (let nxt = opt_index (first_of_array cur) key
      in if nxt = Undefined then None else get_loop_spec nxt keys)"

definition get_spec :: "jsval \<Rightarrow> string \<Rightarrow> jsval" where
  "get_spec obj path =
     (case get_loop_spec obj (split_dot path) of
        None \<Rightarrow> Null
      | Some result \<Rightarrow>
          (case result of
             Arr (x # xs) \<Rightarrow> x
           | _ \<Rightarrow> or_else result Null))"

section \<open>Strings\<close>

text \<open>
  \<^verbatim>\<open>String(v)\<close> for the values above, and \<^verbatim>\<open>Array.prototype.join\<close>, where \<^verbatim>\<open>undefined\<close> and
  \<^verbatim>\<open>null\<close> elements give the empty string.
\<close>

fun show_nat :: "nat \<Rightarrow> string" where
  "show_nat n =
     (if n < 10 then [''0123456789'' ! n]
      else show_nat (n div 10) @ [''0123456789'' ! (n mod 10)])"

declare show_nat.simps [simp del]

fun join_strings :: "string \<Rightarrow> string list \<Rightarrow> string" where
  "join_strings sep [] = []"
| "join_strings sep [x] = x"
| "join_strings sep (x # y # ys) = x @ sep @ join_strings sep (y # ys)"

fun toString :: "jsval \<Rightarrow> string" where
  "toString Undefined = ''undefined''"
| "toString Null = ''null''"
| "toString (Bool b) = (if b then ''true'' else ''false'')"
| "toString (Num n) = show_nat n"
| "toString (Str s) = s"
| "toString (Arr xs) =
     join_strings '','' (map (\<lambda>x. if x = Undefined \<or> x = Null then [] else toString x) xs)"
| "toString (Obj kvs) = ''[object Object]''"

text \<open>What one element contributes to \<^verbatim>\<open>xs.join(sep)\<close>.\<close>

definition join_piece :: "jsval \<Rightarrow> string" where
  "join_piece x = (if x = Undefined \<or> x = Null then [] else toString x)"

definition join :: "jsval list \<Rightarrow> string \<Rightarrow> string" where
  "join xs sep = join_strings sep (map join_piece xs)"

text \<open>
  \<^verbatim>\<open>toLowerCase\<close> on ASCII: the letters \<^verbatim>\<open>A\<close> to \<^verbatim>\<open>Z\<close> become \<^verbatim>\<open>a\<close> to \<^verbatim>\<open>z\<close>, every other
  character stays.
\<close>

definition lower_char :: "char \<Rightarrow> char" where
  "lower_char c =
     (case map_of (zip ''ABCDEFGHIJKLMNOPQRSTUVWXYZ'' ''abcdefghijklmnopqrstuvwxyz'') c of
        Some l \<Rightarrow> l
      | None \<Rightarrow> c)"

definition toLowerCase :: "string \<Rightarrow> string" where
  "toLowerCase s = map lower_char s"

text \<open>\<^verbatim>\<open>text.includes(word)\<close>: the word starts at some position of the text.\<close>

fun includes_js :: "string \<Rightarrow> string \<Rightarrow> bool" where
  "includes_js [] word = (word = [])"
| "includes_js (c # cs) word = (prefix word (c # cs) \<or> includes_js cs word)"

section \<open>Numbers\<close>

text \<open>
  What \<^verbatim>\<open>parseFloat\<close> and \<^verbatim>\<open>parseInt\<close> return: \<^verbatim>\<open>NaN\<close>, an infinity, or a finite binary64
  number, kept as the rational it denotes (\<^verbatim>\<open>-0\<close> is \<open>Number 0\<close>: the code cannot tell
  them apart, both are falsy and compare alike).
\<close>

datatype jsnum = NaN | Number rat | PosInfinity | NegInfinity

fun truthy_num :: "jsnum \<Rightarrow> bool" where
  "truthy_num NaN = False"
| "truthy_num (Number q) = (q \<noteq> 0)"
| "truthy_num PosInfinity = True"
| "truthy_num NegInfinity = True"

text \<open>\<^verbatim>\<open>n || 0\<close> and \<^verbatim>\<open>n || null\<close> (\<open>None\<close> is \<^verbatim>\<open>null\<close>).\<close>

definition or_zero :: "jsnum \<Rightarrow> jsnum" where
  "or_zero n = (if truthy_num n then n else Number 0)"

definition or_null :: "jsnum \<Rightarrow> jsnum option" where
  "or_null n = (if truthy_num n then Some n else None)"

text \<open>\<^verbatim>\<open>n >= c\<close> and \<^verbatim>\<open>n <= c\<close> against a finite constant; every comparison with \<^verbatim>\<open>NaN\<close> is false.\<close>

fun num_ge :: "jsnum \<Rightarrow> rat \<Rightarrow> bool" where
  "num_ge NaN c = False"
| "num_ge (Number q) c = (c \<le> q)"
| "num_ge PosInfinity c = True"
| "num_ge NegInfinity c = False"

fun num_le :: "jsnum \<Rightarrow> rat \<Rightarrow> bool" where
  "num_le NaN c = False"
| "num_le (Number q) c = (q \<le> c)"
| "num_le PosInfinity c = False"
| "num_le NegInfinity c = True"

subsection \<open>Rounding to binary64\<close>

definition pow2 :: "int \<Rightarrow> rat" where
  "pow2 e = (if 0 \<le> e then 2 ^ nat e else 1 / 2 ^ nat (- e))"

definition pow10 :: "int \<Rightarrow> rat" where
  "pow10 e = (if 0 \<le> e then 10 ^ nat e else 1 / 10 ^ nat (- e))"

fun bit_length :: "nat \<Rightarrow> nat" where
  "bit_length n = (if n = 0 then 0 else Suc (bit_length (n div 2)))"

declare bit_length.simps [simp del]

text \<open>
  For \<open>a > 0\<close>, the \<open>e\<close> with \<open>2^e \<le> a < 2^(e+1)\<close>: from the bits of the integer part when
  \<open>a \<ge> 1\<close>, and from those of \<open>1 / a\<close> rounded up otherwise.
\<close>

definition binary_exponent :: "rat \<Rightarrow> int" where
  "binary_exponent a =
     (if 1 \<le> a then int (bit_length (nat \<lfloor>a\<rfloor>)) - 1
      else - int (bit_length (nat (\<lceil>1 / a\<rceil> - 1))))"

definition round_half_even :: "rat \<Rightarrow> int" where
  "round_half_even x =
     (let f = \<lfloor>x\<rfloor>; d = x - of_int f
      in if d < 1 / 2 then f
         else if 1 / 2 < d then f + 1
         else if even f then f else f + 1)"

text \<open>
  The binary64 number nearest to a rational, ties to even: 53 significant bits, the
  least exponent -1022 (below it the spacing stays \<open>2^-1074\<close>), and an infinity from
  \<open>2^1024\<close> on.
\<close>

definition to_double :: "rat \<Rightarrow> jsnum" where
  "to_double x =
     (if x = 0 then Number 0
      else
        let a = \<bar>x\<bar>;
            e = max (binary_exponent a) (- 1022);
            ulp = pow2 (e - 52);
            r = of_int (round_half_even (a / ulp)) * ulp
        in if pow2 1024 \<le> r then (if x < 0 then NegInfinity else PosInfinity)
           else Number (if x < 0 then - r else r))"

subsection \<open>parseFloat and parseInt\<close>

text \<open>
  Both built-ins convert their argument to a string, skip leading white space and read
  the longest prefix that is a number; \<^verbatim>\<open>NaN\<close> when there is none. White space is the
  ASCII white space here.
\<close>

definition is_space :: "char \<Rightarrow> bool" where
  "is_space c = (of_char c \<in> {9, 10, 11, 12, 13, 32 :: nat})"

definition read_sign :: "string \<Rightarrow> bool \<times> string" where
  "read_sign s =
     (case s of
        [] \<Rightarrow> (False, s)
      | c # cs \<Rightarrow>
          if c = CHR ''-'' then (True, cs)
          else if c = CHR ''+'' then (False, cs)
          else (False, s))"

definition signed :: "bool \<Rightarrow> rat \<Rightarrow> rat" where
  "signed neg v = (if neg then - v else v)"

text \<open>The exponent part at the start of a string (\<^verbatim>\<open>e\<close>, a sign, digits); 0 when there is none.\<close>

definition read_exponent :: "string \<Rightarrow> int" where
  "read_exponent s =
     (case s of
        [] \<Rightarrow> 0
      | c # cs \<Rightarrow>
          if c = CHR ''e'' \<or> c = CHR ''E'' then
            (let (neg, r) = read_sign cs; ds = takeWhile is_digit r
             in if ds = [] then 0
                else if neg then - int (digits_val ds) else int (digits_val ds))
          else 0)"

definition parseFloat_string :: "string \<Rightarrow> jsnum" where
  "parseFloat_string s =
     (let (neg, u) = read_sign (dropWhile is_space s)
      in if prefix ''Infinity'' u then (if neg then NegInfinity else PosInfinity)
         else
           let ip = takeWhile is_digit u;
               r1 = dropWhile is_digit u;
               dotted = (r1 \<noteq> [] \<and> hd r1 = CHR ''.'');
               fp = (if dotted then takeWhile is_digit (tl r1) else []);
               r2 = (if dotted then dropWhile is_digit (tl r1) else r1)
           in if ip = [] \<and> fp = [] then NaN
              else to_double (signed neg
                     (of_nat (digits_val (ip @ fp)) / 10 ^ length fp * pow10 (read_exponent r2))))"

definition is_hex_digit :: "char \<Rightarrow> bool" where
  "is_hex_digit c = (c \<in> set ''0123456789abcdefABCDEF'')"

definition hex_digit_val :: "char \<Rightarrow> nat" where
  "hex_digit_val c =
     (let n = of_char c :: nat
      in if n < 58 then n - 48 else if n < 71 then n - 55 else n - 87)"

definition hex_val :: "string \<Rightarrow> nat" where
  "hex_val ds = foldl (\<lambda>n c. 16 * n + hex_digit_val c) 0 ds"

definition parseInt_string :: "string \<Rightarrow> jsnum" where
  "parseInt_string s =
     (let (neg, u) = read_sign (dropWhile is_space s)
      in if prefix ''0x'' u \<or> prefix ''0X'' u then
           (let hs = takeWhile is_hex_digit (drop 2 u)
            in if hs = [] then NaN else to_double (signed neg (of_nat (hex_val hs))))
         else
           (let ds = takeWhile is_digit u
            in if ds = [] then NaN else to_double (signed neg (of_nat (digits_val ds)))))"

definition parseFloat :: "jsval \<Rightarrow> jsnum" where
  "parseFloat v = parseFloat_string (toString v)"

definition parseInt :: "jsval \<Rightarrow> jsnum" where
  "parseInt v = parseInt_string (toString v)"

section \<open>The classifier\<close>

text \<open>
  Both predicates are written inline in the \<^verbatim>\<open>/import\<close> handler (index.js lines 206-228):
  \<^verbatim>\<open>
  const text = [
    get(property, 'letting_type'), get(property, 'market'),
    get(property, 'description'), get(property, 'title')
  ].join(' ').toLowerCase();
  const bedrooms = parseInt(get(property, 'bedrooms')) || 0;
  const isStudent = text.includes('student') || bedrooms >= 3 ||
                    text.includes('letting') || text.includes('to let');
  const webStatus = get(property, 'web_status');
  const isAvailable = !webStatus || webStatus === '0' || webStatus === '100';
  \<close>
\<close>

definition student_text :: "jsval \<Rightarrow> string" where
  "student_text property =
     toLowerCase
       (join [get property ''letting_type'', get property ''market'',
              get property ''description'', get property ''title''] '' '')"

definition student_bedrooms :: "jsval \<Rightarrow> jsnum" where
  "student_bedrooms property = or_zero (parseInt (get property ''bedrooms''))"

definition isStudent :: "jsval \<Rightarrow> bool" where
  "isStudent property =
     (let text = student_text property; bedrooms = student_bedrooms property
      in includes_js text ''student'' \<or> num_ge bedrooms 3 \<or>
         includes_js text ''letting'' \<or> includes_js text ''to let'')"

text \<open>
  The other variant of the server (src/unnamed/part_000 line 132) builds the same text
  and reads
  \<^verbatim>\<open>const isStudent = text.includes('student') || bedrooms >= 3;\<close>
\<close>

definition isStudent_alt :: "jsval \<Rightarrow> bool" where
  "isStudent_alt property =
     (let text = student_text property; bedrooms = student_bedrooms property
      in includes_js text ''student'' \<or> num_ge bedrooms 3)"

definition isAvailable :: "jsval \<Rightarrow> bool" where
  "isAvailable property =
     (let webStatus = get property ''web_status''
      in \<not> truthy webStatus \<or> webStatus = Str ''0'' \<or> webStatus = Str ''100'')"

section \<open>The mapper\<close>

text \<open>
  \<^verbatim>\<open>
  function mapType(rmType) {
    if (rmType >= 1 && rmType <= 6) return 'house';
    if (rmType === 9) return 'studio';
    return 'flat';
  }
  \<close>
\<close>

definition mapType :: "jsnum \<Rightarrow> string" where
  "mapType rmType =
     (if num_ge rmType 1 \<and> num_le rmType 6 then ''house''
      else if rmType = Number 9 then ''studio''
      else ''flat'')"


text \<open>
  The listing \<^verbatim>\<open>mapProperty\<close> builds (index.js lines 102-129). A field the code sets to
  \<^verbatim>\<open>undefined\<close> is left out of the JSON response: it is \<open>None\<close> in the four lists and in
  \<open>landlord_email\<close>. In the four parsed numbers \<open>None\<close> is \<^verbatim>\<open>null\<close>.
\<close>

record listing =
  title :: jsval
  description :: jsval
  property_type :: string
  street_address :: jsval
  address :: jsval
  city :: jsval
  postcode :: jsval
  latitude :: "jsnum option"
  longitude :: "jsnum option"
  bedrooms :: jsnum
  bathrooms :: jsnum
  price_monthly :: "jsnum option"
  deposit_amount :: "jsnum option"
  available_from :: jsval
  furnished :: bool
  bills_included :: bool
  epc_rating :: jsval
  council_tax_band :: jsval
  images :: "jsval list option"
  floorplans :: "jsval list option"
  virtual_tours :: "jsval list option"
  amenities :: "jsval list option"
  landlord_email :: "jsval option"
  landlord_account_type :: string
  status :: string
  external_id :: jsval

text \<open>\<^verbatim>\<open>xs.length > 0 ? xs : undefined\<close> and \<^verbatim>\<open>v || undefined\<close>.\<close>

definition non_empty :: "jsval list \<Rightarrow> jsval list option" where
  "non_empty xs = (if length xs > 0 then Some xs else None)"

definition or_undefined :: "jsval \<Rightarrow> jsval option" where
  "or_undefined v = (if truthy v then Some v else None)"

text \<open>\<^verbatim>\<open>Array.isArray(v) ? v : [v]\<close>.\<close>

definition as_list :: "jsval \<Rightarrow> jsval list" where
  "as_list v = (case v of Arr xs \<Rightarrow> xs | _ \<Rightarrow> [v])"

text \<open>
  \<^verbatim>\<open>mapProperty\<close> runs in a \<^verbatim>\<open>try\<close> whose \<^verbatim>\<open>catch\<close> returns \<^verbatim>\<open>null\<close> (\<open>None\<close> here). The one
  statement that can throw is the first, \<^verbatim>\<open>property.address\<close>, when \<^verbatim>\<open>property\<close> is
  \<^verbatim>\<open>undefined\<close> or \<^verbatim>\<open>null\<close>; after it \<^verbatim>\<open>property\<close> is neither, and reading its other
  properties cannot throw.
\<close>

definition mapProperty :: "jsval \<Rightarrow> jsval \<Rightarrow> listing option" where
  "mapProperty property agentEmail =
     (case dot property ''address'' of
        Inl e \<Rightarrow> None
      | Inr property_address \<Rightarrow>
          let address = or_else (opt_index property_address ''0'') (Obj []);
              price = or_else (opt_index (opt_index property ''price'') ''0'') (Obj []);
              files = or_else (opt_index property ''files'') (Arr []);
              fileList = as_list files;
              images = filter truthy (map (\<lambda>f. get f ''url'')
                         (filter (\<lambda>f. get f ''type'' = Str ''0'') fileList));
              floorplans = filter truthy (map (\<lambda>f. get f ''url'')
                         (filter (\<lambda>f. get f ''type'' = Str ''2'') fileList));
              videos = filter truthy (map (\<lambda>f. get f ''url'')
                         (filter (\<lambda>f. get f ''type'' = Str ''3'') fileList));
              bullets = or_else (opt_index property ''bullets'') (Arr []);
              bulletList = as_list bullets;
              amenities = filter truthy (map (\<lambda>b. get b ''bullet'') bulletList)
          in Some \<lparr>
               title = or_else (or_else (get address ''display'') (get address ''street''))
                         (Str ''Property''),
               description = or_else (get property ''description'') (Str []),
               property_type = mapType (or_zero (parseFloat (get property ''rm_type''))),
               street_address = or_else (get address ''street'') (Str []),
               address = or_else (get address ''display'') (Str []),
               city = or_else (get address ''town'') (Str []),
               postcode = or_else (get address ''postcode'') (Str []),
               latitude = or_null (parseFloat (get property ''latitude'')),
               longitude = or_null (parseFloat (get property ''longitude'')),
               bedrooms = or_zero (parseInt (get property ''bedrooms'')),
               bathrooms = or_zero (parseInt (get property ''bathrooms'')),
               price_monthly = or_null (parseFloat (get price ''$t'')),
               deposit_amount = or_null (parseFloat (get property ''deposit'')),
               available_from = or_else (get property ''available'') (Str []),
               furnished = (get property ''furnished'' = Str ''1''),
               bills_included = False,
               epc_rating = get property ''epcrating_current'',
               council_tax_band = get property ''counciltaxband'',
               images = non_empty images,
               floorplans = non_empty floorplans,
               virtual_tours = non_empty videos,
               amenities = non_empty amenities,
               landlord_email = or_undefined agentEmail,
               landlord_account_type = ''agent'',
               status = ''available'',
               external_id = get property ''prop_id''
             \<rparr>)"

section \<open>The import loop\<close>

text \<open>
  What the vendor answers to one property-detail request, as far as the loop tells the
  answers apart: the request (or reading its body) throws, the response is not
  \<^verbatim>\<open>ok\<close>, \<^verbatim>\<open>parseXml\<close> rejects the body, or \<^verbatim>\<open>parseXml\<close> resolves to a document. The
  vendor is a parameter of the loop: it answers the \<open>n\<close>-th detail request of an import,
  made for a given url.
\<close>

datatype detail_reply = Rejected | NotOk | Malformed | Document jsval

type_synonym vendor = "nat \<Rightarrow> jsval \<Rightarrow> detail_reply"

text \<open>
  The variables of the loop (index.js lines 181-183), and two logs that the code does
  not keep: the urls handed to \<^verbatim>\<open>fetchWithToken\<close> and the records handed to
  \<^verbatim>\<open>mapProperty\<close>, in the order of the calls.
\<close>

record counters =
  skipped :: nat
  errors :: nat

record import_state = counters +
  processedProperties :: "listing list"
  requested :: "jsval list"
  mapper_calls :: "jsval list"

text \<open>
  The test of line 189, \<^verbatim>\<open>!propId || !propertyUrl\<close>, as a predicate of the reference, and
  the url the loop requests for it.
\<close>

definition url_of :: "jsval \<Rightarrow> jsval" where
  "url_of propertyRef = opt_index (opt_index propertyRef ''url'') ''0''"

definition complete_ref :: "jsval \<Rightarrow> bool" where
  "complete_ref propertyRef =
     (truthy (opt_index (opt_index propertyRef ''prop_id'') ''0'') \<and> truthy (url_of propertyRef))"

text \<open>
  One iteration (index.js lines 185-241), in three parts. \<open>classify_and_map\<close> is lines
  206-235, from the student test to the push. \<open>process_detail\<close> is the \<^verbatim>\<open>try\<close> block of
  lines 194-240 with its \<^verbatim>\<open>catch\<close>: every exception inside it is caught and counted in
  \<^verbatim>\<open>errors\<close>, so it always yields a state. \<open>import_step\<close> is the whole iteration: lines
  186-187 stand outside the \<^verbatim>\<open>try\<close>, and a TypeError there leaves the loop and the
  handler answers 500 (\<open>Inl\<close>).
\<close>

definition classify_and_map :: "jsval \<Rightarrow> import_state \<Rightarrow> jsval \<Rightarrow> import_state" where
  "classify_and_map agentEmail s property =
     (if \<not> isStudent property then s\<lparr>skipped := skipped s + 1\<rparr>
      else if \<not> isAvailable property then s\<lparr>skipped := skipped s + 1\<rparr>
      else
        let s1 = s\<lparr>mapper_calls := mapper_calls s @ [property]\<rparr>
        in case mapProperty property agentEmail of
             Some kurblyProperty \<Rightarrow>
               s1\<lparr>processedProperties := processedProperties s1 @ [kurblyProperty]\<rparr>
           | None \<Rightarrow> s1\<lparr>errors := errors s1 + 1\<rparr>)"

definition process_detail :: "vendor \<Rightarrow> jsval \<Rightarrow> import_state \<Rightarrow> jsval \<Rightarrow> import_state" where
  "process_detail net agentEmail s propertyUrl =
     (let s1 = s\<lparr>requested := requested s @ [propertyUrl]\<rparr>
      in case net (length (requested s)) propertyUrl of
           Rejected \<Rightarrow> s1\<lparr>errors := errors s1 + 1\<rparr>
         | NotOk \<Rightarrow> s1\<lparr>errors := errors s1 + 1\<rparr>
         | Malformed \<Rightarrow> s1\<lparr>errors := errors s1 + 1\<rparr>
         | Document propertyData \<Rightarrow>
             (case dot propertyData ''property'' of
                Inl e \<Rightarrow> s1\<lparr>errors := errors s1 + 1\<rparr>
              | Inr property \<Rightarrow> classify_and_map agentEmail s1 property))"

definition import_step :: "vendor \<Rightarrow> jsval \<Rightarrow> import_state \<Rightarrow> jsval \<Rightarrow> error + import_state" where
  "import_step net agentEmail s propertyRef =
     (case dot propertyRef ''prop_id'' of
        Inl e \<Rightarrow> Inl e
      | Inr ref_prop_id \<Rightarrow>
     (case dot propertyRef ''url'' of
        Inl e \<Rightarrow> Inl e
      | Inr ref_url \<Rightarrow>
          let propId = opt_index ref_prop_id ''0'';
              propertyUrl = opt_index ref_url ''0''
          in if \<not> truthy propId \<or> \<not> truthy propertyUrl then Inr (s\<lparr>skipped := skipped s + 1\<rparr>)
             else Inr (process_detail net agentEmail s propertyUrl)))"

fun import_loop :: "vendor \<Rightarrow> jsval \<Rightarrow> import_state \<Rightarrow> jsval list \<Rightarrow> error + import_state" where
  "import_loop net agentEmail s [] = Inr s"
| "import_loop net agentEmail s (propertyRef # rest) =
     (case import_step net agentEmail s propertyRef of
        Inl e \<Rightarrow> Inl e
      | Inr s' \<Rightarrow> import_loop net agentEmail s' rest)"

text \<open>
  The handler from the decoded property list on (index.js lines 176-255):
  \<^verbatim>\<open>
  const properties = propertiesData?.properties?.property || [];
  const propertyList = Array.isArray(properties) ? properties : [properties];
  ...
  res.json({ success: true, properties: processedProperties,
             total: processedProperties.length, total_found: propertyList.length,
             skipped, errors, ... });
  \<close>
\<close>

definition propertyList_of :: "jsval \<Rightarrow> jsval list" where
  "propertyList_of propertiesData =
     as_list (or_else (opt_index (opt_index propertiesData ''properties'') ''property'') (Arr []))"

definition initial_state :: import_state where
  "initial_state =
     \<lparr>skipped = 0, errors = 0, processedProperties = [], requested = [], mapper_calls = []\<rparr>"

record import_response = counters +
  success :: bool
  properties :: "listing list"
  total :: nat
  total_found :: nat

definition import_result :: "vendor \<Rightarrow> jsval \<Rightarrow> jsval \<Rightarrow> error + import_response" where
  "import_result net agentEmail propertiesData =
     (let propertyList = propertyList_of propertiesData
      in case import_loop net agentEmail initial_state propertyList of
           Inl e \<Rightarrow> Inl e
         | Inr s \<Rightarrow>
             Inr \<lparr>skipped = skipped s, errors = errors s, success = True,
                  properties = processedProperties s,
                  total = length (processedProperties s),
                  total_found = length propertyList\<rparr>)"

section \<open>The token manager\<close>

text \<open>
  The answer of the vendor's \<^verbatim>\<open>/branch\<close> endpoint: the request throws, or a response with
  a status and headers. \<^verbatim>\<open>response.ok\<close> is a status from 200 to 299.
\<close>

datatype auth_reply = Unreachable | Reply nat "string \<Rightarrow> string option"

definition response_ok :: "nat \<Rightarrow> bool" where
  "response_ok code = (200 \<le> code \<and> code < 300)"

text \<open>\<^verbatim>\<open>a || b\<close> on header values (\<open>None\<close> is absent), and the test \<^verbatim>\<open>!token\<close>.\<close>

definition str_or :: "string option \<Rightarrow> string option \<Rightarrow> string option" where
  "str_or a b = (case a of Some s \<Rightarrow> if s \<noteq> [] then a else b | None \<Rightarrow> b)"

definition token_header :: "(string \<Rightarrow> string option) \<Rightarrow> string option" where
  "token_header headers = str_or (headers ''token'') (headers ''Token'')"

text \<open>
  The module variables \<^verbatim>\<open>cachedToken\<close> and \<^verbatim>\<open>tokenTimestamp\<close> (index.js lines 16-17),
  and a count of the requests sent to the authentication endpoint, which the code does
  not keep.
\<close>

record token_slot =
  cachedToken :: "string option"
  auth_requests :: nat

record token_state = token_slot +
  tokenTimestamp :: "int option"

definition TOKEN_TTL :: int where
  "TOKEN_TTL = 20 * 60 * 1000"

text \<open>
  \<^verbatim>\<open>cachedToken && tokenTimestamp && (now - tokenTimestamp < TOKEN_TTL)\<close>: a token that is
  not the empty string, a timestamp that is not 0, and an age below the TTL. The result
  is the token the cache test lets \<^verbatim>\<open>getToken\<close> return, if any.
\<close>

definition fresh_token :: "int \<Rightarrow> token_state \<Rightarrow> string option" where
  "fresh_token now w =
     (case cachedToken w of
        None \<Rightarrow> None
      | Some t \<Rightarrow>
          (case tokenTimestamp w of
             None \<Rightarrow> None
           | Some ts \<Rightarrow>
               if t \<noteq> [] \<and> ts \<noteq> 0 \<and> now - ts < TOKEN_TTL then Some t else None))"

text \<open>
  \<^verbatim>\<open>getToken\<close> (index.js lines 39-75), given the clock and what the vendor would answer.
  \<open>fetch_token\<close> is the part after the cache test (lines 47-74); an exception leaves
  the variables as they were.
\<close>

definition fetch_token :: "int \<Rightarrow> auth_reply \<Rightarrow> token_state \<Rightarrow> (error + string) \<times> token_state" where
  "fetch_token now reply w =
     (let w1 = w\<lparr>auth_requests := auth_requests w + 1\<rparr>
      in case reply of
           Unreachable \<Rightarrow> (Inl (UpstreamError ''request failed''), w1)
         | Reply code headers \<Rightarrow>
             if \<not> response_ok code then
               (Inl (AuthError (''Failed to get token: '' @ show_nat code)), w1)
             else
               (case token_header headers of
                  None \<Rightarrow> (Inl (AuthError ''No token received from Alto''), w1)
                | Some token \<Rightarrow>
                    if token = [] then (Inl (AuthError ''No token received from Alto''), w1)
                    else (Inr token, w1\<lparr>cachedToken := Some token, tokenTimestamp := Some now\<rparr>)))"

definition getToken :: "int \<Rightarrow> auth_reply \<Rightarrow> token_state \<Rightarrow> (error + string) \<times> token_state" where
  "getToken now reply w =
     (case fresh_token now w of
        Some t \<Rightarrow> (Inr t, w)
      | None \<Rightarrow> fetch_token now reply w)"

text \<open>
  The other variant (src/unnamed/part_000 lines 37-65) keeps the expiry instead of the
  time of the fetch, reads the clock a second time when it stores the token, and uses
  axios, whose \<^verbatim>\<open>get\<close> throws on every status outside 200-299:
  \<^verbatim>\<open>
  if (cachedToken && tokenExpiry && Date.now() < tokenExpiry) return cachedToken;
  const response = await axios.get(...);
  const token = response.headers['token'] || response.headers['Token'];
  if (!token) throw new Error('No token received from Alto');
  cachedToken = token;
  tokenExpiry = Date.now() + (10 * 60 * 1000);
  return token;
  \<close>
\<close>

record token_state_alt = token_slot +
  tokenExpiry :: "int option"

definition fresh_token_alt :: "int \<Rightarrow> token_state_alt \<Rightarrow> string option" where
  "fresh_token_alt now w =
     (case cachedToken w of
        None \<Rightarrow> None
      | Some t \<Rightarrow>
          (case tokenExpiry w of
             None \<Rightarrow> None
           | Some expiry \<Rightarrow>
               if t \<noteq> [] \<and> expiry \<noteq> 0 \<and> now < expiry then Some t else None))"

definition fetch_token_alt ::
  "int \<Rightarrow> auth_reply \<Rightarrow> token_state_alt \<Rightarrow> (error + string) \<times> token_state_alt" where
  "fetch_token_alt now_stored reply w =
     (let w1 = w\<lparr>auth_requests := auth_requests w + 1\<rparr>
      in case reply of
           Unreachable \<Rightarrow> (Inl (UpstreamError ''request failed''), w1)
         | Reply code headers \<Rightarrow>
             if \<not> response_ok code then
               (Inl (UpstreamError (''Request failed with status code '' @ show_nat code)), w1)
             else
               (case token_header headers of
                  None \<Rightarrow> (Inl (AuthError ''No token received from Alto''), w1)
                | Some token \<Rightarrow>
                    if token = [] then (Inl (AuthError ''No token received from Alto''), w1)
                    else (Inr token,
                          w1\<lparr>cachedToken := Some token,
                             tokenExpiry := Some (now_stored + 10 * 60 * 1000)\<rparr>)))"

definition getToken_alt ::
  "int \<Rightarrow> int \<Rightarrow> auth_reply \<Rightarrow> token_state_alt \<Rightarrow> (error + string) \<times> token_state_alt" where
  "getToken_alt now now_stored reply w =
     (case fresh_token_alt now w of
        Some t \<Rightarrow> (Inr t, w)
      | None \<Rightarrow> fetch_token_alt now_stored reply w)"

text \<open>What the vendor's answer must be for the fetch to succeed.\<close>

definition grants :: "auth_reply \<Rightarrow> string \<Rightarrow> bool" where
  "grants reply token =
     (case reply of
        Unreachable \<Rightarrow> False
      | Reply code headers \<Rightarrow>
          response_ok code \<and> token_header headers = Some token \<and> token \<noteq> [])"

section \<open>Example records\<close>

text \<open>A nested element as \<^verbatim>\<open>xml2js\<close> decodes it: \<^verbatim>\<open>{a: [{b: ['x']}]}\<close>.\<close>

definition nested_example :: jsval where
  "nested_example = Obj [(''a'', Arr [Obj [(''b'', Arr [Str ''x''])]])]"

text \<open>A reference of the property list with both fields, and a four-bedroom record that is off the web.\<close>

definition reference_example :: jsval where
  "reference_example = Obj [(''prop_id'', Arr [Str ''7'']), (''url'', Arr [Str ''http://v/7''])]"

definition unavailable_example :: jsval where
  "unavailable_example = Obj [(''bedrooms'', Arr [Str ''4'']), (''web_status'', Arr [Str ''1''])]"

text \<open>
  An empty \<^verbatim>\<open><epcrating_current/>\<close> element as \<^verbatim>\<open>xml2js\<close> decodes it, and a record whose
  fields are bare empty strings.
\<close>

definition empty_epc_example :: jsval where
  "empty_epc_example = Obj [(''epcrating_current'', Arr [Str []])]"

definition bare_empty_example :: jsval where
  "bare_empty_example = Obj [(''web_status'', Str []), (''epcrating_current'', Str [])]"





definition three_bed_example :: jsval where
  "three_bed_example =
     Obj [(''bedrooms'', Arr [Str ''3'']), (''description'', Arr [Str ''A quiet flat''])]"

definition two_bed_example :: jsval where
  "two_bed_example =
     Obj [(''bedrooms'', Arr [Str ''2'']), (''description'', Arr [Str ''A quiet flat''])]"

definition to_let_example :: jsval where
  "to_let_example = Obj [(''market'', Arr [Str ''To Let''])]"


text \<open>The property list of an import, the vendor's answers, and states of the token cache.\<close>

definition missing_url_example :: jsval where
  "missing_url_example = Obj [(''prop_id'', Arr [Str ''8''])]"

definition four_bed_example :: jsval where
  "four_bed_example = Obj [(''bedrooms'', Arr [Str ''4''])]"

definition list_example :: jsval where
  "list_example =
     Obj [(''properties'', Obj [(''property'', Arr [reference_example, missing_url_example])])]"

definition vendor_example :: vendor where
  "vendor_example n url = Document (Obj [(''property'', four_bed_example)])"

definition response_example :: import_response where
  "response_example =
     \<lparr>skipped = 1, errors = 0, success = True,
      properties = [the (mapProperty four_bed_example Undefined)],
      total = 1, total_found = 2\<rparr>"

definition warm_example :: token_state where
  "warm_example = \<lparr>cachedToken = Some ''T'', auth_requests = 1, tokenTimestamp = Some 1000\<rparr>"

definition cold_example :: token_state where
  "cold_example = \<lparr>cachedToken = None, auth_requests = 0, tokenTimestamp = None\<rparr>"

definition reply_example :: auth_reply where
  "reply_example = Reply 200 [''token'' \<mapsto> ''T'']"


section \<open>The field accessor: properties\<close>

lemma split_dot_not_Nil: "split_dot path \<noteq> []"
  by (induction path) (auto split: list.splits)

lemma foldl_opt_index_Undefined: "foldl opt_index Undefined ks = Undefined"
  by (induction ks) simp_all

lemma get_loop_Cons:
  "get_loop obj (k # ks) =
     (if foldl opt_index obj (k # ks) = Undefined then None
      else Some (foldl opt_index obj (k # ks)))"
  by (induction ks arbitrary: obj k) (simp_all add: Let_def foldl_opt_index_Undefined)

lemma get_loop_foldl:
  "ks \<noteq> [] \<Longrightarrow>
   get_loop obj ks =
     (if foldl opt_index obj ks = Undefined then None else Some (foldl opt_index obj ks))"
  by (cases ks) (simp_all only: get_loop_Cons list.simps)

text \<open>
  The loop with its early return computes the chain of plain property reads: a read of
  \<^verbatim>\<open>undefined\<close> is \<^verbatim>\<open>undefined\<close> again, and \<^verbatim>\<open>undefined\<close> at the end gives \<^verbatim>\<open>null\<close> as well.
\<close>

lemma get_foldl:
  "get obj path =
     (case foldl opt_index obj (split_dot path) of
        Arr (x # xs) \<Rightarrow> x
      | v \<Rightarrow> or_else v Null)"
  by (simp add: get_def get_loop_foldl split_dot_not_Nil or_else_def
      split: jsval.splits list.splits)

lemma foldl_take_Undefined:
  assumes "foldl opt_index obj (take n ks) = Undefined"
  shows "foldl opt_index obj ks = Undefined"
proof -
  have "foldl opt_index obj ks =
      foldl opt_index (foldl opt_index obj (take n ks)) (drop n ks)"
    by (metis append_take_drop_id foldl_append)
  with assms show ?thesis
    by (simp add: foldl_opt_index_Undefined)
qed

lemma split_dot_no_dot: "CHR ''.'' \<notin> set k \<Longrightarrow> split_dot k = [k]"
  by (induction k) auto

text \<open>
  None of the keys the servers read is a name of a built-in prototype: every read they
  make is the read of an own property or of an absent key.
\<close>

lemma server_keys_prototypes:
  "set server_keys \<inter>
     set (object_prototype @ array_prototype @ string_prototype @ number_prototype @
          boolean_prototype) = {}"
  by (simp add: server_keys_def object_prototype_def array_prototype_def
      string_prototype_def number_prototype_def boolean_prototype_def)

lemma prototype_chain_subset:
  "set (prototype_chain v) \<subseteq>
     set (object_prototype @ array_prototype @ string_prototype @ number_prototype @
          boolean_prototype)"
  by (cases v) auto

lemma server_keys_not_inherited: "k \<in> set server_keys \<Longrightarrow> \<not> inherited v k"
  using server_keys_prototypes prototype_chain_subset [of v]
  unfolding inherited_def by blast

lemma server_keys_own_reads: "k \<in> set server_keys \<Longrightarrow> own_reads v [k]"
  by (simp add: server_keys_not_inherited)

lemma opt_index_own: "\<not> own_property v k \<Longrightarrow> opt_index v k = Undefined"
  by (cases v) (auto split: option.splits)

text \<open>
  C1 (as amended). For every value and every dot-separated path whose reads stay within
  own properties and absent keys (no segment names a member that the value read there
  may inherit from a built-in prototype, such as \<^verbatim>\<open>map\<close> under an array or \<^verbatim>\<open>constructor\<close>
  under an object), \<open>get\<close> reads the segments one after the other by plain property
  access, with no substitution of an array's first element between segments: its result
  is the chain of reads, where only the value reached after the last segment is
  replaced by its first element when it is a non-empty array (and a falsy value there
  gives \<^verbatim>\<open>null\<close>). It returns \<^verbatim>\<open>null\<close> as soon as a segment is absent or \<^verbatim>\<open>undefined\<close>, and it
  has no failing branch. In particular, when the segments read so far have reached an
  array and the next segment is neither an index nor \<^verbatim>\<open>length\<close>, the result is \<^verbatim>\<open>null\<close>. On
  a path of one segment read from a value that is not a non-empty array, which is every
  call the two servers make, this is the same result as with the substitution between
  segments.
\<close>

theorem get_plain_lookup:
  assumes "own_reads obj (split_dot path)"
  shows "get obj path =
     (case foldl opt_index obj (split_dot path) of
        Arr (x # xs) \<Rightarrow> x
      | v \<Rightarrow> or_else v Null)
   \<and> (\<forall>n < length (split_dot path).
        foldl opt_index obj (take (Suc n) (split_dot path)) = Undefined \<longrightarrow>
        get obj path = Null)
   \<and> (\<forall>ks k rest xs.
        split_dot path = ks @ k # rest \<and> foldl opt_index obj ks = Arr xs \<and>
        k \<noteq> ''length'' \<and> array_index k = None \<longrightarrow>
        get obj path = Null)
   \<and> (CHR ''.'' \<notin> set path \<and> first_of_array obj = obj \<longrightarrow>
        get obj path = get_spec obj path)"
proof (intro conjI allI impI)
  show "get obj path =
     (case foldl opt_index obj (split_dot path) of
        Arr (x # xs) \<Rightarrow> x
      | v \<Rightarrow> or_else v Null)"
    by (rule get_foldl)
next
  fix n
  assume "foldl opt_index obj (take (Suc n) (split_dot path)) = Undefined"
  then have "foldl opt_index obj (split_dot path) = Undefined"
    by (rule foldl_take_Undefined)
  then show "get obj path = Null"
    by (simp add: get_foldl or_else_def)
next
  fix ks k rest xs
  assume "split_dot path = ks @ k # rest \<and> foldl opt_index obj ks = Arr xs \<and>
        k \<noteq> ''length'' \<and> array_index k = None"
  then have "foldl opt_index obj (split_dot path) = Undefined"
    by (simp add: foldl_opt_index_Undefined)
  then show "get obj path = Null"
    by (simp add: get_foldl or_else_def)
next
  assume "CHR ''.'' \<notin> set path \<and> first_of_array obj = obj"
  then show "get obj path = get_spec obj path"
    by (simp add: get_spec_def get_def split_dot_no_dot Let_def)
qed

theorem get_plain_lookup_witness:
  "own_reads nested_example (split_dot ''a.b'') \<and>
   split_dot ''a.b'' = [''a''] @ ''b'' # [] \<and>
   foldl opt_index nested_example [''a''] = Arr [Obj [(''b'', Arr [Str ''x''])]] \<and>
   ''b'' \<noteq> ''length'' \<and> array_index ''b'' = None \<and>
   (1::nat) < length (split_dot ''a.b'') \<and>
   foldl opt_index nested_example (take (Suc 1) (split_dot ''a.b'')) = Undefined \<and>
   get nested_example ''a.b'' = Null \<and>
   own_reads nested_example (split_dot ''a'') \<and>
   CHR ''.'' \<notin> set ''a'' \<and> first_of_array nested_example = nested_example \<and>
   get nested_example ''a'' = Obj [(''b'', Arr [Str ''x''])] \<and>
   get_spec nested_example ''a'' = Obj [(''b'', Arr [Str ''x''])]"
proof -
  have r: "own_reads nested_example (split_dot ''a.b'')"
    by (simp add: nested_example_def inherited_def array_index_def is_digit_def
        array_prototype_def object_prototype_def)
  have r': "own_reads nested_example (split_dot ''a'')"
    by (simp add: nested_example_def inherited_def)
  have h: "split_dot ''a.b'' = [''a''] @ ''b'' # [] \<and>
    foldl opt_index nested_example [''a''] = Arr [Obj [(''b'', Arr [Str ''x''])]] \<and>
    ''b'' \<noteq> ''length'' \<and> array_index ''b'' = None"
    by (simp add: nested_example_def array_index_def is_digit_def)
  have n: "(1::nat) < length (split_dot ''a.b'') \<and>
    foldl opt_index nested_example (take (Suc 1) (split_dot ''a.b'')) = Undefined"
    by (simp add: nested_example_def array_index_def is_digit_def)
  from get_plain_lookup [OF r]
  have "\<forall>ks k rest xs.
        split_dot ''a.b'' = ks @ k # rest \<and> foldl opt_index nested_example ks = Arr xs \<and>
        k \<noteq> ''length'' \<and> array_index k = None \<longrightarrow> get nested_example ''a.b'' = Null"
    by (elim conjE)
  with h have deep: "get nested_example ''a.b'' = Null"
    by blast
  have s: "CHR ''.'' \<notin> set ''a'' \<and> first_of_array nested_example = nested_example"
    by (simp add: nested_example_def first_of_array_def)
  from get_plain_lookup [OF r']
  have "CHR ''.'' \<notin> set ''a'' \<and> first_of_array nested_example = nested_example \<longrightarrow>
        get nested_example ''a'' = get_spec nested_example ''a''"
    by (elim conjE)
  with s have same: "get nested_example ''a'' = get_spec nested_example ''a''"
    by blast
  have one: "get_spec nested_example ''a'' = Obj [(''b'', Arr [Str ''x''])]"
    by (simp add: nested_example_def get_spec_def first_of_array_def or_else_def)
  from r r' h n deep s same one show ?thesis
    by (intro conjI) simp_all
qed

text \<open>
  C1 as the specification states it fails: under \<^verbatim>\<open>{a: [{b: ['x']}]}\<close> the path
  \<^verbatim>\<open>a.b\<close> reaches the array at \<^verbatim>\<open>a\<close>, whose property \<^verbatim>\<open>b\<close> is \<^verbatim>\<open>undefined\<close> (an array has
  no own property \<^verbatim>\<open>b\<close> and inherits none), so the code returns \<^verbatim>\<open>null\<close>; substituting the
  first element before descending would give \<^verbatim>\<open>'x'\<close>.
\<close>

theorem get_intermediate_array_counterexample:
  "get nested_example ''a.b'' = Null \<and> get_spec nested_example ''a.b'' = Str ''x''"
  by (simp add: nested_example_def get_def get_spec_def first_of_array_def array_index_def
      is_digit_def or_else_def)

subsection \<open>Paths of one segment\<close>

text \<open>Every call of \<open>get\<close> in the two servers passes a key without a dot.\<close>

lemma get_single:
  "CHR ''.'' \<notin> set k \<Longrightarrow>
   get obj k = (case opt_index obj k of Arr (x # xs) \<Rightarrow> x | v \<Rightarrow> or_else v Null)"
  by (simp add: get_foldl split_dot_no_dot)

lemma get_Obj:
  "CHR ''.'' \<notin> set k \<Longrightarrow>
   get (Obj kvs) k =
     (case map_of kvs k of
        None \<Rightarrow> Null
      | Some (Arr (x # xs)) \<Rightarrow> x
      | Some v \<Rightarrow> or_else v Null)"
  by (simp add: get_single or_else_def split: option.splits jsval.splits list.splits)

lemma get_absent:
  "opt_index property k = Undefined \<Longrightarrow> CHR ''.'' \<notin> set k \<Longrightarrow> get property k = Null"
  by (simp add: get_single or_else_def)

lemma opt_index_defined: "opt_index v k \<noteq> Undefined \<Longrightarrow> v \<noteq> Undefined \<and> v \<noteq> Null"
  by (cases v) auto

section \<open>Numbers: evaluation\<close>

text \<open>
  Rules that let the simplifier run \<open>parseFloat\<close> and \<open>parseInt\<close> on a given string. The
  bit length is unfolded on numerals only: its defining equation would unfold without
  end on a variable.
\<close>

lemma floor_rat_numeral: "\<lfloor>numeral a / numeral b :: rat\<rfloor> = numeral a div numeral b"
  by (metis floor_divide_of_int_eq of_int_numeral)

lemma ceiling_rat_numeral:
  "\<lceil>numeral a / numeral b :: rat\<rceil> = - (- numeral a div numeral b)"
  unfolding ceiling_def
  by (metis floor_divide_of_int_eq of_int_numeral of_int_minus minus_divide_left)

lemma bit_length_0: "bit_length 0 = 0"
  by (simp add: bit_length.simps)

lemma bit_length_1: "bit_length 1 = 1" "bit_length (Suc 0) = 1"
  by (simp_all add: bit_length.simps)

lemma bit_length_numeral: "bit_length (numeral k) = Suc (bit_length (numeral k div 2))"
  by (subst bit_length.simps) simp

lemmas num_eval =
  to_double_def binary_exponent_def pow2_def pow10_def round_half_even_def Let_def
  bit_length_0 bit_length_1 bit_length_numeral
  parseFloat_def parseFloat_string_def parseInt_def parseInt_string_def read_sign_def
  read_exponent_def signed_def is_space_def is_digit_def digits_val_def digit_val_def
  floor_rat_numeral ceiling_rat_numeral




subsection \<open>The rounding\<close>

text \<open>
  The exponent brackets its argument between two powers of two, and a finite result of
  \<open>to_double\<close> is within half a unit in the last place of the rational it rounds.
\<close>

lemma bit_length_pos: "0 < n \<Longrightarrow> 0 < bit_length n"
  by (subst bit_length.simps) simp

lemma bit_length_bounds: "0 < n \<Longrightarrow> 2 ^ (bit_length n - 1) \<le> n \<and> n < 2 ^ bit_length n"
proof (induction n rule: bit_length.induct)
  case (1 n)
  show ?case
  proof (cases "n div 2 = 0")
    case True
    with 1(2) have "n = 1" by (simp add: div_eq_0_iff)
    then show ?thesis
      by (simp add: bit_length_1)
  next
    case False
    then have pos: "0 < n div 2" by simp
    with 1(1) 1(2) have ih: "2 ^ (bit_length (n div 2) - 1) \<le> n div 2"
      "n div 2 < 2 ^ bit_length (n div 2)"
      by simp_all
    have bl: "bit_length n = Suc (bit_length (n div 2))"
      using 1(2) by (subst bit_length.simps) simp
    from bit_length_pos [OF pos] obtain k where k: "bit_length (n div 2) = Suc k"
      by (cases "bit_length (n div 2)") simp_all
    from ih k have "2 * 2 ^ k \<le> 2 * (n div 2)" by simp
    also have "\<dots> \<le> n" by simp
    finally have lo: "2 ^ (bit_length n - 1) \<le> n"
      by (simp add: bl k)
    from ih(2) have "n div 2 + 1 \<le> 2 ^ bit_length (n div 2)" by simp
    then have "2 * (n div 2) + 2 \<le> 2 * 2 ^ bit_length (n div 2)" by simp
    moreover have "n < 2 * (n div 2) + 2" by arith
    ultimately have "n < 2 ^ bit_length n"
      by (simp add: bl)
    with lo show ?thesis by simp
  qed
qed

lemma pow2_add1: "pow2 (e + 1) = 2 * pow2 e"
proof (cases "0 \<le> e")
  case True
  then have "nat (e + 1) = Suc (nat e)" by simp
  with True show ?thesis by (simp add: pow2_def)
next
  case False
  then have "nat (- e) = Suc (nat (- (e + 1)))" by simp
  with False show ?thesis by (simp add: pow2_def)
qed

lemma binary_exponent_bounds:
  assumes "0 < a"
  shows "pow2 (binary_exponent a) \<le> a \<and> a < pow2 (binary_exponent a + 1)"
proof (cases "1 \<le> a")
  case True
  define n where "n = nat \<lfloor>a\<rfloor>"
  from True have fl: "1 \<le> \<lfloor>a\<rfloor>" by linarith
  then have n: "0 < n" "of_nat n = (of_int \<lfloor>a\<rfloor> :: rat)"
    by (simp_all add: n_def)
  from bit_length_pos [OF n(1)] obtain k where k: "bit_length n = Suc k"
    by (cases "bit_length n") simp_all
  from bit_length_bounds [OF n(1)] k have b: "2 ^ k \<le> n" "n < 2 * 2 ^ k"
    by simp_all
  have e: "binary_exponent a = int k"
    using True by (simp add: binary_exponent_def n_def [symmetric] k)
  have "(2 :: rat) ^ k = of_nat (2 ^ k)" by simp
  also have "\<dots> \<le> of_nat n" using b(1) by (simp only: of_nat_le_iff)
  also have "\<dots> \<le> a" using n(2) by simp
  finally have lo: "pow2 (int k) \<le> a" by (simp add: pow2_def)
  from b(2) have "n + 1 \<le> 2 * 2 ^ k" by simp
  then have "(of_nat (n + 1) :: rat) \<le> of_nat (2 * 2 ^ k)" by (simp only: of_nat_le_iff)
  then have "of_int \<lfloor>a\<rfloor> + 1 \<le> (2 * 2 ^ k :: rat)" using n(2) by simp
  moreover have "a < of_int \<lfloor>a\<rfloor> + 1" by linarith
  ultimately have "a < 2 * 2 ^ k" by linarith
  then have hi: "a < pow2 (int k + 1)" by (simp add: pow2_add1) (simp add: pow2_def)
  from lo hi e show ?thesis by simp
next
  case False
  define m where "m = \<lceil>1 / a\<rceil>"
  define n where "n = nat (m - 1)"
  from False assms have inv: "1 < 1 / a" by (simp add: field_simps)
  then have m2: "2 \<le> m" unfolding m_def by linarith
  then have n: "0 < n" "int n = m - 1" by (simp_all add: n_def)
  from bit_length_pos [OF n(1)] obtain k where k: "bit_length n = Suc k"
    by (cases "bit_length n") simp_all
  from bit_length_bounds [OF n(1)] k have b: "2 ^ k \<le> n" "n < 2 * 2 ^ k"
    by simp_all
  have e: "binary_exponent a = - int (Suc k)"
    using False by (simp add: binary_exponent_def m_def [symmetric] n_def [symmetric] k)
  have up: "1 / a \<le> of_int m" unfolding m_def by linarith
  have low: "of_int m - 1 < 1 / a" unfolding m_def by linarith
  from n(2) have "m = int n + 1" by simp
  then have mn: "(of_int m :: rat) = of_nat n + 1" by simp
  from b(2) have "n + 1 \<le> 2 * 2 ^ k" by simp
  then have "(of_nat (n + 1) :: rat) \<le> of_nat (2 * 2 ^ k)" by (simp only: of_nat_le_iff)
  then have "(of_int m :: rat) \<le> 2 * 2 ^ k" using mn by simp
  with up have "1 / a \<le> 2 * 2 ^ k" by simp
  with assms have lo: "1 / (2 * 2 ^ k) \<le> a"
    by (simp add: field_simps)
  from b(1) have "(of_nat (2 ^ k) :: rat) \<le> of_nat n" by (simp only: of_nat_le_iff)
  then have "(2 ^ k :: rat) \<le> of_int m - 1" using mn by simp
  with low have "2 ^ k < 1 / a" by simp
  with assms have hi: "a < 1 / 2 ^ k"
    by (simp add: field_simps)
  have "nat (int k + 1) = Suc k" by simp
  then have p1: "pow2 (- int (Suc k)) = 1 / (2 * 2 ^ k)"
    by (simp add: pow2_def)
  have p2: "pow2 (- int (Suc k) + 1) = 1 / 2 ^ k"
    by (simp add: pow2_def)
  from lo hi e p1 p2 show ?thesis by simp
qed

lemma round_half_even_nearest: "\<bar>of_int (round_half_even y) - y\<bar> \<le> (1 / 2 :: rat)"
proof -
  have "of_int \<lfloor>y\<rfloor> \<le> y" "y < of_int \<lfloor>y\<rfloor> + 1"
    by linarith+
  then show ?thesis
    by (auto simp add: round_half_even_def Let_def abs_le_iff)
qed

lemma pow2_pos: "0 < pow2 e"
  by (simp add: pow2_def)

lemma pow2_half: "pow2 (e - 53) = pow2 (e - 52) / 2"
proof (cases "0 \<le> e - 53")
  case True
  then have "nat (e - 52) = Suc (nat (e - 53))" by simp
  with True show ?thesis by (simp add: pow2_def)
next
  case False
  show ?thesis
  proof (cases "0 \<le> e - 52")
    case True
    with False have "e = 52" by simp
    then show ?thesis by (simp add: pow2_def)
  next
    case False
    then have "nat (- (e - 53)) = Suc (nat (- (e - 52)))" by simp
    with False show ?thesis by (simp add: pow2_def)
  qed
qed

lemma to_double_nearest:
  assumes "to_double x = Number r"
  shows "\<bar>r - x\<bar> \<le> pow2 (max (binary_exponent \<bar>x\<bar>) (- 1022) - 53)"
proof (cases "x = 0")
  case True
  with assms have "r = 0" by (simp add: to_double_def)
  with True show ?thesis using pow2_pos [of "max (binary_exponent \<bar>x\<bar>) (- 1022) - 53"] by simp
next
  case False
  define e where "e = max (binary_exponent \<bar>x\<bar>) (- 1022)"
  define ulp where "ulp = pow2 (e - 52)"
  define r' where "r' = of_int (round_half_even (\<bar>x\<bar> / ulp)) * ulp"
  have ulp: "0 < ulp" unfolding ulp_def by (rule pow2_pos)
  from assms False have r: "r = (if x < 0 then - r' else r')"
    unfolding r'_def ulp_def e_def
    by (auto simp add: to_double_def Let_def split: if_splits)
  have "\<bar>r' - \<bar>x\<bar>\<bar> = \<bar>of_int (round_half_even (\<bar>x\<bar> / ulp)) - \<bar>x\<bar> / ulp\<bar> * ulp"
  proof -
    have "r' - \<bar>x\<bar> = (of_int (round_half_even (\<bar>x\<bar> / ulp)) - \<bar>x\<bar> / ulp) * ulp"
      using ulp by (simp add: r'_def field_simps)
    then show ?thesis using ulp by (simp add: abs_mult)
  qed
  also have "\<dots> \<le> 1 / 2 * ulp"
    using round_half_even_nearest [of "\<bar>x\<bar> / ulp"] ulp by (simp only: mult_right_mono less_imp_le)
  finally have "\<bar>r' - \<bar>x\<bar>\<bar> \<le> ulp / 2" by simp
  moreover have "\<bar>r - x\<bar> = \<bar>r' - \<bar>x\<bar>\<bar>"
    using r by (cases "x < 0") (simp_all add: abs_if)
  ultimately show ?thesis
    by (simp add: e_def [symmetric] pow2_half ulp_def)
qed

section \<open>The mapper: properties\<close>

lemma mapProperty_None:
  "mapProperty property agentEmail = None \<longleftrightarrow> property = Undefined \<or> property = Null"
  by (simp add: mapProperty_def dot_def Let_def)

lemma mapProperty_Some:
  "property \<noteq> Undefined \<Longrightarrow> property \<noteq> Null \<Longrightarrow>
   \<exists>out. mapProperty property agentEmail = Some out"
  using mapProperty_None [of property agentEmail] by auto

lemma mapProperty_the:
  assumes "mapProperty property agentEmail = Some out"
  shows "property \<noteq> Undefined" "property \<noteq> Null"
    "out = the (mapProperty property agentEmail)"
  using assms mapProperty_None [of property agentEmail] by auto

lemma mapProperty_epc_rating:
  assumes "mapProperty property agentEmail = Some out"
  shows "epc_rating out = get property ''epcrating_current''"
  unfolding mapProperty_the(3) [OF assms]
  using mapProperty_the(1,2) [OF assms]
  by (simp add: mapProperty_def dot_def Let_def)





subsection \<open>The type code\<close>









section \<open>The classifier: properties\<close>

lemma toLowerCase_Nil: "toLowerCase [] = []"
  by (simp add: toLowerCase_def)

lemma toLowerCase_Cons: "toLowerCase (c # cs) = lower_char c # toLowerCase cs"
  by (simp add: toLowerCase_def)

lemmas text_eval =
  student_text_def join_def join_piece_def get_Obj toLowerCase_Nil toLowerCase_Cons
  lower_char_def Let_def

lemmas bedrooms_eval = student_bedrooms_def get_Obj num_eval or_zero_def

lemma isStudent_unavailable_example: "isStudent unavailable_example"
  by (simp add: isStudent_def unavailable_example_def bedrooms_eval)

lemma isAvailable_unavailable_example: "\<not> isAvailable unavailable_example"
  by (simp add: isAvailable_def unavailable_example_def get_Obj)

text \<open>
  C3. A record is available exactly when its \<^verbatim>\<open>web_status\<close> is absent or falsy, or is the
  string \<^verbatim>\<open>"0"\<close>, or is the string \<^verbatim>\<open>"100"\<close>, where the value of the field is what \<open>get\<close>
  returns for it; every other value makes it unavailable. When the loop has fetched such
  a record and it passed the student test, the iteration adds one to \<^verbatim>\<open>skipped\<close> and
  nothing else changes but the log of requests: no listing is added, \<^verbatim>\<open>errors\<close> stays,
  the mapper is not called, and the loop goes on (the result is not an exception).
\<close>

theorem isAvailable_web_status:
  "(isAvailable property \<longleftrightarrow>
      opt_index property ''web_status'' = Undefined \<or>
      \<not> truthy (get property ''web_status'') \<or>
      get property ''web_status'' = Str ''0'' \<or>
      get property ''web_status'' = Str ''100'')
   \<and> (\<forall>w. get property ''web_status'' = Str w \<longrightarrow>
          (isAvailable property \<longleftrightarrow> w = [] \<or> w = ''0'' \<or> w = ''100''))
   \<and> (truthy (opt_index (opt_index propertyRef ''prop_id'') ''0'') \<and>
        truthy (opt_index (opt_index propertyRef ''url'') ''0'') \<and>
        net (length (requested s)) (opt_index (opt_index propertyRef ''url'') ''0'') =
          Document propertyData \<and>
        dot propertyData ''property'' = Inr property \<and>
        isStudent property \<and> \<not> isAvailable property \<longrightarrow>
        import_step net agentEmail s propertyRef =
          Inr (s\<lparr>skipped := skipped s + 1,
                 requested := requested s @ [opt_index (opt_index propertyRef ''url'') ''0'']\<rparr>))"
proof -
  have iff: "isAvailable property \<longleftrightarrow>
      opt_index property ''web_status'' = Undefined \<or>
      \<not> truthy (get property ''web_status'') \<or>
      get property ''web_status'' = Str ''0'' \<or>
      get property ''web_status'' = Str ''100''"
    using get_absent [of property "''web_status''"]
    by (auto simp add: isAvailable_def Let_def)
  have str: "\<forall>w. get property ''web_status'' = Str w \<longrightarrow>
          (isAvailable property \<longleftrightarrow> w = [] \<or> w = ''0'' \<or> w = ''100'')"
    by (auto simp add: isAvailable_def Let_def)
  have step: "truthy (opt_index (opt_index propertyRef ''prop_id'') ''0'') \<and>
        truthy (opt_index (opt_index propertyRef ''url'') ''0'') \<and>
        net (length (requested s)) (opt_index (opt_index propertyRef ''url'') ''0'') =
          Document propertyData \<and>
        dot propertyData ''property'' = Inr property \<and>
        isStudent property \<and> \<not> isAvailable property \<longrightarrow>
        import_step net agentEmail s propertyRef =
          Inr (s\<lparr>skipped := skipped s + 1,
                 requested := requested s @ [opt_index (opt_index propertyRef ''url'') ''0'']\<rparr>)"
  proof
    assume a: "truthy (opt_index (opt_index propertyRef ''prop_id'') ''0'') \<and>
        truthy (opt_index (opt_index propertyRef ''url'') ''0'') \<and>
        net (length (requested s)) (opt_index (opt_index propertyRef ''url'') ''0'') =
          Document propertyData \<and>
        dot propertyData ''property'' = Inr property \<and>
        isStudent property \<and> \<not> isAvailable property"
    then have "propertyRef \<noteq> Undefined" "propertyRef \<noteq> Null"
      by auto
    with a show "import_step net agentEmail s propertyRef =
          Inr (s\<lparr>skipped := skipped s + 1,
                 requested := requested s @ [opt_index (opt_index propertyRef ''url'') ''0'']\<rparr>)"
      by (simp add: import_step_def process_detail_def classify_and_map_def dot_def Let_def)
  qed
  from iff str step show ?thesis
    by (intro conjI)
qed

theorem isAvailable_web_status_witness:
  "truthy (opt_index (opt_index reference_example ''prop_id'') ''0'') \<and>
   truthy (opt_index (opt_index reference_example ''url'') ''0'') \<and>
   dot (Obj [(''property'', unavailable_example)]) ''property'' = Inr unavailable_example \<and>
   isStudent unavailable_example \<and> \<not> isAvailable unavailable_example \<and>
   get unavailable_example ''web_status'' = Str ''1'' \<and>
   import_step (\<lambda>n url. Document (Obj [(''property'', unavailable_example)])) Undefined
       initial_state reference_example =
     Inr \<lparr>skipped = 1, errors = 0, processedProperties = [],
          requested = [Str ''http://v/7''], mapper_calls = []\<rparr>"
proof -
  have h: "truthy (opt_index (opt_index reference_example ''prop_id'') ''0'') \<and>
   truthy (opt_index (opt_index reference_example ''url'') ''0'') \<and>
   dot (Obj [(''property'', unavailable_example)]) ''property'' = Inr unavailable_example"
    by (simp add: reference_example_def dot_def array_index_def)
  have u: "opt_index (opt_index reference_example ''url'') ''0'' = Str ''http://v/7''"
    by (simp add: reference_example_def array_index_def)
  have g: "get unavailable_example ''web_status'' = Str ''1''"
    by (simp add: unavailable_example_def get_Obj)
  from isAvailable_web_status [of unavailable_example reference_example
      "\<lambda>n url. Document (Obj [(''property'', unavailable_example)])" initial_state
      "Obj [(''property'', unavailable_example)]" Undefined]
    h isStudent_unavailable_example isAvailable_unavailable_example
  have "import_step (\<lambda>n url. Document (Obj [(''property'', unavailable_example)])) Undefined
       initial_state reference_example =
     Inr (initial_state\<lparr>skipped := skipped initial_state + 1,
          requested := requested initial_state @
            [opt_index (opt_index reference_example ''url'') ''0'']\<rparr>)"
    by blast
  then have "import_step (\<lambda>n url. Document (Obj [(''property'', unavailable_example)])) Undefined
       initial_state reference_example =
     Inr \<lparr>skipped = 1, errors = 0, processedProperties = [],
          requested = [Str ''http://v/7''], mapper_calls = []\<rparr>"
    by (simp add: u initial_state_def)
  with h g isStudent_unavailable_example isAvailable_unavailable_example show ?thesis
    by simp
qed

text \<open>
  C10 (as amended). Whenever the value reached after the last segment of the path is
  itself the empty string, the number 0 or \<^verbatim>\<open>false\<close>, \<open>get\<close> returns \<^verbatim>\<open>null\<close>. So a
  \<^verbatim>\<open>web_status\<close> that is the bare empty string is read as \<^verbatim>\<open>null\<close>, like an absent one, and
  the record counts as available; it also counts as available when the empty string is
  the one element of an array. A bare empty-string \<^verbatim>\<open>epcrating_current\<close> is emitted as
  \<^verbatim>\<open>epc_rating: null\<close>.
\<close>

theorem get_falsy_is_null:
  "(foldl opt_index obj (split_dot path) = Str [] \<or>
    foldl opt_index obj (split_dot path) = Num 0 \<or>
    foldl opt_index obj (split_dot path) = Bool False \<longrightarrow> get obj path = Null)
   \<and> (opt_index property ''web_status'' = Str [] \<or>
       opt_index property ''web_status'' = Undefined \<longrightarrow>
        get property ''web_status'' = Null \<and> isAvailable property)
   \<and> (opt_index property ''web_status'' = Arr [Str []] \<longrightarrow> isAvailable property)
   \<and> (opt_index property ''epcrating_current'' = Str [] \<longrightarrow>
        map_option epc_rating (mapProperty property agentEmail) = Some Null)"
proof -
  have falsy: "foldl opt_index obj (split_dot path) = Str [] \<or>
    foldl opt_index obj (split_dot path) = Num 0 \<or>
    foldl opt_index obj (split_dot path) = Bool False \<longrightarrow> get obj path = Null"
    by (auto simp add: get_foldl or_else_def)
  have bare: "opt_index property ''web_status'' = Str [] \<or>
       opt_index property ''web_status'' = Undefined \<longrightarrow>
        get property ''web_status'' = Null \<and> isAvailable property"
  proof
    assume "opt_index property ''web_status'' = Str [] \<or>
       opt_index property ''web_status'' = Undefined"
    then have "get property ''web_status'' = Null"
      by (auto simp add: get_single or_else_def)
    then show "get property ''web_status'' = Null \<and> isAvailable property"
      by (simp add: isAvailable_def)
  qed
  have wrapped: "opt_index property ''web_status'' = Arr [Str []] \<longrightarrow> isAvailable property"
  proof
    assume "opt_index property ''web_status'' = Arr [Str []]"
    then have "get property ''web_status'' = Str []"
      by (simp add: get_single)
    then show "isAvailable property"
      by (simp add: isAvailable_def)
  qed
  have epc: "opt_index property ''epcrating_current'' = Str [] \<longrightarrow>
        map_option epc_rating (mapProperty property agentEmail) = Some Null"
  proof
    assume a: "opt_index property ''epcrating_current'' = Str []"
    then have "property \<noteq> Undefined" "property \<noteq> Null"
      using opt_index_defined [of property "''epcrating_current''"] by simp_all
    then obtain out where o: "mapProperty property agentEmail = Some out"
      using mapProperty_Some by blast
    from a have "get property ''epcrating_current'' = Null"
      by (simp add: get_single or_else_def)
    with o show "map_option epc_rating (mapProperty property agentEmail) = Some Null"
      by (simp add: mapProperty_epc_rating)
  qed
  from falsy bare wrapped epc show ?thesis
    by (intro conjI)
qed

theorem get_falsy_is_null_witness:
  "foldl opt_index bare_empty_example (split_dot ''web_status'') = Str [] \<and>
   get bare_empty_example ''web_status'' = Null \<and>
   get (Obj []) ''web_status'' = Null \<and>
   isAvailable bare_empty_example \<and>
   opt_index bare_empty_example ''epcrating_current'' = Str [] \<and>
   map_option epc_rating (mapProperty bare_empty_example Undefined) = Some Null"
proof -
  have h: "foldl opt_index bare_empty_example (split_dot ''web_status'') = Str [] \<and>
      opt_index bare_empty_example ''web_status'' = Str [] \<and>
      opt_index (Obj []) ''web_status'' = Undefined \<and>
      opt_index bare_empty_example ''epcrating_current'' = Str []"
    by (simp add: bare_empty_example_def)
  with get_falsy_is_null [of bare_empty_example "''web_status''" bare_empty_example Undefined]
    get_falsy_is_null [of bare_empty_example "''web_status''" "Obj []" Undefined]
  show ?thesis
    by simp
qed

text \<open>
  C10 as stated fails for the shape every decoded element has: the value \<open>get\<close> resolves
  for an empty \<^verbatim>\<open><epcrating_current/>\<close>, decoded as \<^verbatim>\<open>['']\<close>, is the empty string, and
  \<open>get\<close> returns it (line 27 returns \<^verbatim>\<open>result[0]\<close> before line 28 is reached), so
  \<open>epc_rating\<close> is emitted as the empty string and not as \<^verbatim>\<open>null\<close>.
\<close>

theorem get_wrapped_empty_counterexample:
  "get empty_epc_example ''epcrating_current'' = Str [] \<and>
   map_option epc_rating (mapProperty empty_epc_example Undefined) = Some (Str [])"
proof -
  have g: "get empty_epc_example ''epcrating_current'' = Str []"
    by (simp add: empty_epc_example_def get_Obj)
  obtain out where o: "mapProperty empty_epc_example Undefined = Some out"
    using mapProperty_Some [of empty_epc_example Undefined]
    by (auto simp add: empty_epc_example_def)
  with g show ?thesis
    by (simp add: mapProperty_epc_rating)
qed

lemma includes_js_iff: "includes_js t w \<longleftrightarrow> (\<exists>a b. t = a @ w @ b)"
proof (induction t)
  case Nil
  then show ?case by auto
next
  case (Cons c cs)
  show ?case
  proof
    assume "includes_js (c # cs) w"
    then consider "prefix w (c # cs)" | "includes_js cs w" by auto
    then show "\<exists>a b. c # cs = a @ w @ b"
    proof cases
      case 1
      then obtain b where "c # cs = w @ b" by (auto simp add: prefix_def)
      then have "c # cs = [] @ w @ b" by simp
      then show ?thesis by blast
    next
      case 2
      with Cons.IH obtain a b where "cs = a @ w @ b" by blast
      then have "c # cs = (c # a) @ w @ b" by simp
      then show ?thesis by blast
    qed
  next
    assume "\<exists>a b. c # cs = a @ w @ b"
    then obtain a b where ab: "c # cs = a @ w @ b" by blast
    show "includes_js (c # cs) w"
    proof (cases a)
      case Nil
      with ab have "prefix w (c # cs)" by (simp add: prefix_def)
      then show ?thesis by simp
    next
      case (Cons x a')
      with ab have "cs = a' @ w @ b" by simp
      with Cons.IH have "includes_js cs w" by blast
      then show ?thesis by simp
    qed
  qed
qed

lemma student_text_pieces:
  "student_text property =
     toLowerCase (join_piece (get property ''letting_type'') @ '' '' @
                  join_piece (get property ''market'') @ '' '' @
                  join_piece (get property ''description'') @ '' '' @
                  join_piece (get property ''title''))"
  by (simp add: student_text_def join_def)

lemma or_zero_NaN: "or_zero n = (if n = NaN then Number 0 else n)"
  by (cases n) (simp_all add: or_zero_def)

text \<open>
  C2 (as amended). In src/index.js a record passes the student test exactly when the
  lowercase concatenation of \<^verbatim>\<open>letting_type\<close>, \<^verbatim>\<open>market\<close>, \<^verbatim>\<open>description\<close> and \<^verbatim>\<open>title\<close>
  (a missing field contributing the empty string, joined with single spaces) contains
  \<^verbatim>\<open>student\<close>, or contains \<^verbatim>\<open>letting\<close>, or contains \<^verbatim>\<open>to let\<close>, or the bedroom count parsed as
  an integer (0 on a parse failure) is at least 3. In the other variant
  (src/unnamed/part_000) it passes exactly when the text contains \<^verbatim>\<open>student\<close> or the
  bedroom count is at least 3. A text contains a word when the word stands somewhere in
  it. Without a keyword, three bedrooms pass and two fail.
\<close>

theorem isStudent_iff:
  "(isStudent property \<longleftrightarrow>
      includes_js (student_text property) ''student'' \<or>
      includes_js (student_text property) ''letting'' \<or>
      includes_js (student_text property) ''to let'' \<or>
      num_ge (student_bedrooms property) 3)
   \<and> (isStudent_alt property \<longleftrightarrow>
      includes_js (student_text property) ''student'' \<or>
      num_ge (student_bedrooms property) 3)
   \<and> student_text property =
       toLowerCase (join_piece (get property ''letting_type'') @ '' '' @
                    join_piece (get property ''market'') @ '' '' @
                    join_piece (get property ''description'') @ '' '' @
                    join_piece (get property ''title''))
   \<and> (\<forall>k. CHR ''.'' \<notin> set k \<and> opt_index property k = Undefined \<longrightarrow>
          join_piece (get property k) = [])
   \<and> (\<forall>k s. get property k = Str s \<longrightarrow> join_piece (get property k) = s)
   \<and> student_bedrooms property =
       (if parseInt (get property ''bedrooms'') = NaN then Number 0
        else parseInt (get property ''bedrooms''))
   \<and> (\<forall>t w. includes_js t w \<longleftrightarrow> (\<exists>a b. t = a @ w @ b))
   \<and> (\<not> includes_js (student_text property) ''student'' \<and>
       \<not> includes_js (student_text property) ''letting'' \<and>
       \<not> includes_js (student_text property) ''to let'' \<longrightarrow>
        (isStudent property \<longleftrightarrow> num_ge (student_bedrooms property) 3))"
proof -
  have missing: "\<forall>k. CHR ''.'' \<notin> set k \<and> opt_index property k = Undefined \<longrightarrow>
          join_piece (get property k) = []"
    by (simp add: get_absent join_piece_def)
  have str: "\<forall>k s. get property k = Str s \<longrightarrow> join_piece (get property k) = s"
    by (simp add: join_piece_def)
  have beds: "student_bedrooms property =
       (if parseInt (get property ''bedrooms'') = NaN then Number 0
        else parseInt (get property ''bedrooms''))"
    by (simp only: student_bedrooms_def or_zero_NaN)
  show ?thesis
    unfolding isStudent_def isStudent_alt_def Let_def
    using missing str beds student_text_pieces [of property] includes_js_iff
    by blast
qed

lemma three_bed_text: "student_text three_bed_example = ''  a quiet flat ''"
  by (simp add: three_bed_example_def text_eval)

lemma three_bed_bedrooms: "student_bedrooms three_bed_example = Number 3"
  by (simp add: three_bed_example_def bedrooms_eval)

lemma two_bed_text: "student_text two_bed_example = ''  a quiet flat ''"
  by (simp add: two_bed_example_def text_eval)

lemma two_bed_bedrooms: "student_bedrooms two_bed_example = Number 2"
  by (simp add: two_bed_example_def bedrooms_eval)

lemma to_let_text: "student_text to_let_example = '' to let  ''"
  by (simp add: to_let_example_def text_eval)

lemma to_let_bedrooms: "student_bedrooms to_let_example = Number 0"
  by (simp add: to_let_example_def bedrooms_eval)

theorem isStudent_iff_witness:
  "\<not> includes_js (student_text three_bed_example) ''student'' \<and>
   \<not> includes_js (student_text three_bed_example) ''letting'' \<and>
   \<not> includes_js (student_text three_bed_example) ''to let'' \<and>
   student_bedrooms three_bed_example = Number 3 \<and>
   isStudent three_bed_example \<and>
   \<not> includes_js (student_text two_bed_example) ''student'' \<and>
   \<not> includes_js (student_text two_bed_example) ''letting'' \<and>
   \<not> includes_js (student_text two_bed_example) ''to let'' \<and>
   student_bedrooms two_bed_example = Number 2 \<and>
   \<not> isStudent two_bed_example \<and>
   includes_js (student_text to_let_example) ''to let'' \<and>
   isStudent to_let_example"
proof -
  have k3: "\<not> includes_js (student_text three_bed_example) ''student'' \<and>
   \<not> includes_js (student_text three_bed_example) ''letting'' \<and>
   \<not> includes_js (student_text three_bed_example) ''to let''"
    by (simp add: three_bed_text)
  have k2: "\<not> includes_js (student_text two_bed_example) ''student'' \<and>
   \<not> includes_js (student_text two_bed_example) ''letting'' \<and>
   \<not> includes_js (student_text two_bed_example) ''to let''"
    by (simp add: two_bed_text)
  have kl: "includes_js (student_text to_let_example) ''to let''"
    by (simp add: to_let_text)
  from isStudent_iff [of three_bed_example] k3
  have "isStudent three_bed_example \<longleftrightarrow> num_ge (student_bedrooms three_bed_example) 3"
    by blast
  then have s3: "isStudent three_bed_example"
    by (simp add: three_bed_bedrooms)
  from isStudent_iff [of two_bed_example] k2
  have "isStudent two_bed_example \<longleftrightarrow> num_ge (student_bedrooms two_bed_example) 3"
    by blast
  then have s2: "\<not> isStudent two_bed_example"
    by (simp add: two_bed_bedrooms)
  from isStudent_iff [of to_let_example] kl
  have sl: "isStudent to_let_example"
    by blast
  from k3 k2 kl s3 s2 sl three_bed_bedrooms two_bed_bedrooms show ?thesis
    by simp
qed

text \<open>
  C2 as stated fails for one of the two servers it is stated for: a record marketed
  \<^verbatim>\<open>To Let\<close> with no bedroom count has \<^verbatim>\<open>to let\<close> in its text, and the test of
  src/unnamed/part_000 (line 132) rejects it.
\<close>

theorem isStudent_alt_counterexample:
  "includes_js (student_text to_let_example) ''to let'' \<and> \<not> isStudent_alt to_let_example"
  by (simp add: isStudent_alt_def to_let_text to_let_bedrooms)


section \<open>The mapper: parsed numbers and attachments\<close>











section \<open>The import loop: properties\<close>

lemma classify_and_map_count:
  "(skipped (classify_and_map agentEmail s property) = skipped s + 1 \<and>
    errors (classify_and_map agentEmail s property) = errors s \<and>
    processedProperties (classify_and_map agentEmail s property) = processedProperties s) \<or>
   (skipped (classify_and_map agentEmail s property) = skipped s \<and>
    errors (classify_and_map agentEmail s property) = errors s + 1 \<and>
    processedProperties (classify_and_map agentEmail s property) = processedProperties s) \<or>
   (skipped (classify_and_map agentEmail s property) = skipped s \<and>
    errors (classify_and_map agentEmail s property) = errors s \<and>
    (\<exists>k. processedProperties (classify_and_map agentEmail s property) =
          processedProperties s @ [k]))"
  by (cases "mapProperty property agentEmail") (simp_all add: classify_and_map_def Let_def)

lemma classify_and_map_trace:
  "requested (classify_and_map agentEmail s property) = requested s"
  "skipped s \<le> skipped (classify_and_map agentEmail s property)"
  "mapper_calls (classify_and_map agentEmail s property) = mapper_calls s \<or>
   mapper_calls (classify_and_map agentEmail s property) = mapper_calls s @ [property]"
  by (cases "mapProperty property agentEmail"; simp add: classify_and_map_def Let_def)+

lemma process_detail_count:
  "(skipped (process_detail net agentEmail s url) = skipped s + 1 \<and>
    errors (process_detail net agentEmail s url) = errors s \<and>
    processedProperties (process_detail net agentEmail s url) = processedProperties s) \<or>
   (skipped (process_detail net agentEmail s url) = skipped s \<and>
    errors (process_detail net agentEmail s url) = errors s + 1 \<and>
    processedProperties (process_detail net agentEmail s url) = processedProperties s) \<or>
   (skipped (process_detail net agentEmail s url) = skipped s \<and>
    errors (process_detail net agentEmail s url) = errors s \<and>
    (\<exists>k. processedProperties (process_detail net agentEmail s url) =
          processedProperties s @ [k]))"
proof (cases "net (length (requested s)) url")
  case (Document d)
  show ?thesis
  proof (cases "dot d ''property''")
    case (Inl e)
    with Document show ?thesis
      by (simp add: process_detail_def Let_def)
  next
    case (Inr property)
    with Document classify_and_map_count [of agentEmail "s\<lparr>requested := requested s @ [url]\<rparr>" property]
    show ?thesis
      by (simp add: process_detail_def Let_def)
  qed
qed (simp_all add: process_detail_def Let_def)

lemma process_detail_trace:
  "requested (process_detail net agentEmail s url) = requested s @ [url]"
  "skipped s \<le> skipped (process_detail net agentEmail s url)"
  "mapper_calls (process_detail net agentEmail s url) = mapper_calls s \<or>
   (\<exists>d p. net (length (requested s)) url = Document d \<and> dot d ''property'' = Inr p \<and>
      mapper_calls (process_detail net agentEmail s url) = mapper_calls s @ [p])"
proof -
  show "requested (process_detail net agentEmail s url) = requested s @ [url]"
    by (cases "net (length (requested s)) url")
      (simp_all add: process_detail_def Let_def classify_and_map_trace(1) split: sum.splits)
  show "skipped s \<le> skipped (process_detail net agentEmail s url)"
  proof (cases "net (length (requested s)) url")
    case (Document d)
    then show ?thesis
      using classify_and_map_trace(2)
          [where s = "s\<lparr>requested := requested s @ [url]\<rparr>" and agentEmail = agentEmail]
      by (simp add: process_detail_def Let_def split: sum.splits)
  qed (simp_all add: process_detail_def Let_def)
  show "mapper_calls (process_detail net agentEmail s url) = mapper_calls s \<or>
   (\<exists>d p. net (length (requested s)) url = Document d \<and> dot d ''property'' = Inr p \<and>
      mapper_calls (process_detail net agentEmail s url) = mapper_calls s @ [p])"
  proof (cases "net (length (requested s)) url")
    case (Document d)
    show ?thesis
    proof (cases "dot d ''property''")
      case (Inl e)
      with Document show ?thesis
        by (simp add: process_detail_def Let_def)
    next
      case (Inr p)
      with Document
        classify_and_map_trace(3)
          [where s = "s\<lparr>requested := requested s @ [url]\<rparr>" and agentEmail = agentEmail
             and property = p]
      show ?thesis
        by (simp add: process_detail_def Let_def)
    qed
  qed (simp_all add: process_detail_def Let_def)
qed

lemma complete_ref_defined:
  "complete_ref propertyRef \<Longrightarrow> propertyRef \<noteq> Undefined \<and> propertyRef \<noteq> Null"
  by (auto simp add: complete_ref_def url_of_def)

lemma import_step_incomplete:
  assumes "propertyRef \<noteq> Undefined" "propertyRef \<noteq> Null" "\<not> complete_ref propertyRef"
  shows "import_step net agentEmail s propertyRef = Inr (s\<lparr>skipped := skipped s + 1\<rparr>)"
  using assms by (auto simp add: import_step_def dot_def complete_ref_def url_of_def Let_def)

lemma import_step_complete_eq:
  assumes "complete_ref propertyRef"
  shows "import_step net agentEmail s propertyRef =
           Inr (process_detail net agentEmail s (url_of propertyRef))"
  using assms complete_ref_defined [OF assms]
  by (simp add: import_step_def dot_def complete_ref_def url_of_def Let_def)

lemma import_step_Inl:
  "import_step net agentEmail s propertyRef = Inl e \<longleftrightarrow>
     (propertyRef = Undefined \<or> propertyRef = Null) \<and> e = TypeError"
  by (auto simp add: import_step_def dot_def Let_def)

lemma import_step_complete:
  assumes "complete_ref propertyRef"
    and "import_step net agentEmail s propertyRef = Inr s'"
  shows "requested s' = requested s @ [url_of propertyRef]"
    and "skipped s \<le> skipped s'"
    and "mapper_calls s' = mapper_calls s \<or>
         (\<exists>d p. net (length (requested s)) (url_of propertyRef) = Document d \<and>
                dot d ''property'' = Inr p \<and> mapper_calls s' = mapper_calls s @ [p])"
  using assms(2)
    process_detail_trace
      [where net = net and agentEmail = agentEmail and s = s and url = "url_of propertyRef"]
  unfolding import_step_complete_eq [OF assms(1)]
  by auto

lemma import_step_count:
  assumes "import_step net agentEmail s propertyRef = Inr s'"
  shows "(skipped s' = skipped s + 1 \<and> errors s' = errors s \<and>
          processedProperties s' = processedProperties s) \<or>
         (skipped s' = skipped s \<and> errors s' = errors s + 1 \<and>
          processedProperties s' = processedProperties s) \<or>
         (skipped s' = skipped s \<and> errors s' = errors s \<and>
          (\<exists>k. processedProperties s' = processedProperties s @ [k]))"
proof (cases "complete_ref propertyRef")
  case True
  with assms have "s' = process_detail net agentEmail s (url_of propertyRef)"
    by (simp add: import_step_complete_eq)
  with process_detail_count [of net agentEmail s "url_of propertyRef"] show ?thesis
    by simp
next
  case False
  from assms have "propertyRef \<noteq> Undefined" "propertyRef \<noteq> Null"
    using import_step_Inl [of net agentEmail s propertyRef TypeError] by auto
  with False assms have "s' = s\<lparr>skipped := skipped s + 1\<rparr>"
    by (simp add: import_step_incomplete)
  then show ?thesis by simp
qed

lemma import_loop_count:
  "import_loop net agentEmail s refs = Inr s' \<Longrightarrow>
   length (processedProperties s') + skipped s' + errors s' =
     length (processedProperties s) + skipped s + errors s + length refs"
proof (induction refs arbitrary: s)
  case Nil
  then show ?case by simp
next
  case (Cons r refs)
  from Cons.prems obtain s1 where
    step: "import_step net agentEmail s r = Inr s1" and
    rest: "import_loop net agentEmail s1 refs = Inr s'"
    by (auto split: sum.splits)
  from import_step_count [OF step]
  have "length (processedProperties s1) + skipped s1 + errors s1 =
      length (processedProperties s) + skipped s + errors s + 1"
    by auto
  with Cons.IH [OF rest] show ?case by simp
qed

lemma import_loop_total:
  "(\<forall>r \<in> set refs. r \<noteq> Undefined \<and> r \<noteq> Null) \<Longrightarrow>
   \<exists>s'. import_loop net agentEmail s refs = Inr s'"
proof (induction refs arbitrary: s)
  case Nil
  then show ?case by simp
next
  case (Cons r refs)
  then have "r \<noteq> Undefined \<and> r \<noteq> Null" by simp
  then obtain s1 where "import_step net agentEmail s r = Inr s1"
    using import_step_Inl [of net agentEmail s r]
    by (cases "import_step net agentEmail s r") auto
  with Cons show ?case by simp
qed

lemma import_loop_trace:
  "import_loop net agentEmail s refs = Inr s' \<Longrightarrow>
   requested s' = requested s @ map url_of (filter complete_ref refs) \<and>
   skipped s + length (filter (\<lambda>r. \<not> complete_ref r) refs) \<le> skipped s' \<and>
   (\<exists>ms. mapper_calls s' = mapper_calls s @ ms \<and>
      (\<forall>p \<in> set ms. \<exists>r \<in> set refs. complete_ref r \<and>
          (\<exists>n d. net n (url_of r) = Document d \<and> dot d ''property'' = Inr p)))"
proof (induction refs arbitrary: s)
  case Nil
  then show ?case by simp
next
  case (Cons r refs)
  from Cons.prems obtain s1 where
    step: "import_step net agentEmail s r = Inr s1" and
    rest: "import_loop net agentEmail s1 refs = Inr s'"
    by (auto split: sum.splits)
  from step have defined: "r \<noteq> Undefined" "r \<noteq> Null"
    using import_step_Inl [of net agentEmail s r TypeError] by auto
  from Cons.IH [OF rest] obtain ms where
    req: "requested s' = requested s1 @ map url_of (filter complete_ref refs)" and
    skip: "skipped s1 + length (filter (\<lambda>r. \<not> complete_ref r) refs) \<le> skipped s'" and
    calls: "mapper_calls s' = mapper_calls s1 @ ms" and
    from_fetch: "\<forall>p \<in> set ms. \<exists>r \<in> set refs. complete_ref r \<and>
          (\<exists>n d. net n (url_of r) = Document d \<and> dot d ''property'' = Inr p)"
    by blast
  show ?case
  proof (cases "complete_ref r")
    case False
    with step defined have "s1 = s\<lparr>skipped := skipped s + 1\<rparr>"
      by (simp add: import_step_incomplete)
    with False req skip calls from_fetch show ?thesis
      by auto
  next
    case True
    note c = import_step_complete [OF True step]
    from c(3) obtain m1 where
      m1: "mapper_calls s1 = mapper_calls s @ m1" and
      m1_fetch: "\<forall>p \<in> set m1. \<exists>n d. net n (url_of r) = Document d \<and> dot d ''property'' = Inr p"
      by (elim disjE exE conjE) (rule that [of "[]"], simp, simp, rule that, simp, auto)
    have "mapper_calls s' = mapper_calls s @ (m1 @ ms)"
      using calls m1 by simp
    moreover have "\<forall>p \<in> set (m1 @ ms). \<exists>r' \<in> set (r # refs). complete_ref r' \<and>
          (\<exists>n d. net n (url_of r') = Document d \<and> dot d ''property'' = Inr p)"
      using m1_fetch from_fetch True by auto
    ultimately have "\<exists>ms. mapper_calls s' = mapper_calls s @ ms \<and>
      (\<forall>p \<in> set ms. \<exists>r' \<in> set (r # refs). complete_ref r' \<and>
          (\<exists>n d. net n (url_of r') = Document d \<and> dot d ''property'' = Inr p))"
      by blast
    with True c(1,2) req skip show ?thesis
      by simp
  qed
qed

text \<open>
  C7. For every entry of the property list that lacks \<^verbatim>\<open>prop_id\<close> or \<^verbatim>\<open>url\<close> (the entry
  itself being a decoded element, not \<^verbatim>\<open>null\<close> or \<^verbatim>\<open>undefined\<close>), the iteration adds one
  to \<^verbatim>\<open>skipped\<close> and changes nothing else: no request is sent, the mapper is not called,
  and the loop goes on. Over a whole run of the loop the requests sent are exactly the
  urls of the entries that have both fields, in order; \<^verbatim>\<open>skipped\<close> grows by at least the
  number of entries that lack one; every record handed to the mapper is one the vendor
  returned for an entry that has both; and the loop ends with a state whenever no entry
  is \<^verbatim>\<open>null\<close> or \<^verbatim>\<open>undefined\<close>.
\<close>

theorem incomplete_reference_skipped:
  "(propertyRef \<noteq> Undefined \<and> propertyRef \<noteq> Null \<and> \<not> complete_ref propertyRef \<longrightarrow>
      import_step net agentEmail s propertyRef = Inr (s\<lparr>skipped := skipped s + 1\<rparr>))
   \<and> (complete_ref propertyRef \<longleftrightarrow>
        truthy (opt_index (opt_index propertyRef ''prop_id'') ''0'') \<and>
        truthy (opt_index (opt_index propertyRef ''url'') ''0''))
   \<and> (opt_index propertyRef ''prop_id'' = Undefined \<or>
       opt_index propertyRef ''url'' = Undefined \<longrightarrow> \<not> complete_ref propertyRef)
   \<and> (import_loop net agentEmail s refs = Inr s' \<longrightarrow>
        requested s' = requested s @ map url_of (filter complete_ref refs) \<and>
        skipped s + length (filter (\<lambda>r. \<not> complete_ref r) refs) \<le> skipped s' \<and>
        (\<exists>ms. mapper_calls s' = mapper_calls s @ ms \<and>
           (\<forall>p \<in> set ms. \<exists>r \<in> set refs. complete_ref r \<and>
               (\<exists>n d. net n (url_of r) = Document d \<and> dot d ''property'' = Inr p))))
   \<and> ((\<forall>r \<in> set refs. r \<noteq> Undefined \<and> r \<noteq> Null) \<longrightarrow>
        (\<exists>s'. import_loop net agentEmail s refs = Inr s'))"
proof -
  have step: "propertyRef \<noteq> Undefined \<and> propertyRef \<noteq> Null \<and> \<not> complete_ref propertyRef \<longrightarrow>
      import_step net agentEmail s propertyRef = Inr (s\<lparr>skipped := skipped s + 1\<rparr>)"
    by (simp add: import_step_incomplete)
  have test: "complete_ref propertyRef \<longleftrightarrow>
        truthy (opt_index (opt_index propertyRef ''prop_id'') ''0'') \<and>
        truthy (opt_index (opt_index propertyRef ''url'') ''0'')"
    by (simp add: complete_ref_def url_of_def)
  have missing: "opt_index propertyRef ''prop_id'' = Undefined \<or>
       opt_index propertyRef ''url'' = Undefined \<longrightarrow> \<not> complete_ref propertyRef"
    by (auto simp add: complete_ref_def url_of_def)
  have loop: "import_loop net agentEmail s refs = Inr s' \<longrightarrow>
        requested s' = requested s @ map url_of (filter complete_ref refs) \<and>
        skipped s + length (filter (\<lambda>r. \<not> complete_ref r) refs) \<le> skipped s' \<and>
        (\<exists>ms. mapper_calls s' = mapper_calls s @ ms \<and>
           (\<forall>p \<in> set ms. \<exists>r \<in> set refs. complete_ref r \<and>
               (\<exists>n d. net n (url_of r) = Document d \<and> dot d ''property'' = Inr p)))"
    using import_loop_trace [of net agentEmail s refs s'] by blast
  have total: "(\<forall>r \<in> set refs. r \<noteq> Undefined \<and> r \<noteq> Null) \<longrightarrow>
        (\<exists>s'. import_loop net agentEmail s refs = Inr s')"
    using import_loop_total [of refs net agentEmail s] by blast
  from step test missing loop total show ?thesis
    by (intro conjI)
qed

lemma four_bed_student: "isStudent four_bed_example"
  by (simp add: isStudent_def four_bed_example_def bedrooms_eval)

lemma four_bed_available: "isAvailable four_bed_example"
  by (simp add: isAvailable_def four_bed_example_def get_Obj)

lemma reference_example_complete: "complete_ref reference_example"
  by (simp add: complete_ref_def url_of_def reference_example_def array_index_def)

lemma reference_example_url: "url_of reference_example = Str ''http://v/7''"
  by (simp add: url_of_def reference_example_def array_index_def)

lemma missing_url_example_incomplete:
  "missing_url_example \<noteq> Undefined \<and> missing_url_example \<noteq> Null \<and>
   opt_index missing_url_example ''url'' = Undefined \<and> \<not> complete_ref missing_url_example"
  by (simp add: complete_ref_def url_of_def missing_url_example_def)

lemma detail_example:
  "process_detail vendor_example Undefined initial_state (Str ''http://v/7'') =
      \<lparr>skipped = 0, errors = 0,
          processedProperties = [the (mapProperty four_bed_example Undefined)],
          requested = [Str ''http://v/7''], mapper_calls = [four_bed_example]\<rparr>"
proof -
  obtain k where k: "mapProperty four_bed_example Undefined = Some k"
    using mapProperty_Some [of four_bed_example Undefined]
    by (auto simp add: four_bed_example_def)
  then show ?thesis
    by (simp add: process_detail_def classify_and_map_def vendor_example_def dot_def Let_def
        four_bed_student four_bed_available initial_state_def)
qed

lemma loop_example:
  "import_loop vendor_example Undefined initial_state [reference_example, missing_url_example] =
     Inr \<lparr>skipped = 1, errors = 0,
          processedProperties = [the (mapProperty four_bed_example Undefined)],
          requested = [Str ''http://v/7''], mapper_calls = [four_bed_example]\<rparr>"
  using missing_url_example_incomplete
  by (simp add: import_step_complete_eq reference_example_complete reference_example_url
      import_step_incomplete detail_example)

theorem incomplete_reference_skipped_witness:
  "missing_url_example \<noteq> Undefined \<and> missing_url_example \<noteq> Null \<and>
   opt_index missing_url_example ''url'' = Undefined \<and>
   \<not> complete_ref missing_url_example \<and>
   import_step vendor_example Undefined initial_state missing_url_example =
     Inr \<lparr>skipped = 1, errors = 0, processedProperties = [], requested = [], mapper_calls = []\<rparr> \<and>
   import_loop vendor_example Undefined initial_state [reference_example, missing_url_example] =
     Inr \<lparr>skipped = 1, errors = 0,
          processedProperties = [the (mapProperty four_bed_example Undefined)],
          requested = [Str ''http://v/7''], mapper_calls = [four_bed_example]\<rparr> \<and>
   map url_of (filter complete_ref [reference_example, missing_url_example]) = [Str ''http://v/7'']"
proof -
  from incomplete_reference_skipped
    [of missing_url_example vendor_example Undefined initial_state] missing_url_example_incomplete
  have "import_step vendor_example Undefined initial_state missing_url_example =
     Inr (initial_state\<lparr>skipped := skipped initial_state + 1\<rparr>)"
    by blast
  then have step: "import_step vendor_example Undefined initial_state missing_url_example =
     Inr \<lparr>skipped = 1, errors = 0, processedProperties = [], requested = [], mapper_calls = []\<rparr>"
    by (simp add: initial_state_def)
  have urls: "map url_of (filter complete_ref [reference_example, missing_url_example]) =
      [Str ''http://v/7'']"
    using missing_url_example_incomplete
    by (simp add: reference_example_complete reference_example_url)
  from step urls loop_example missing_url_example_incomplete show ?thesis
    by simp
qed

text \<open>
  C9. In src/index.js every entry of the property list is counted once: an iteration
  adds one to \<^verbatim>\<open>skipped\<close>, or one to \<^verbatim>\<open>errors\<close>, or one listing to the list, and nothing
  else of the three. So the response has \<^verbatim>\<open>total_found = total + skipped + errors\<close>, where
  \<^verbatim>\<open>total\<close> is the length of \<^verbatim>\<open>properties\<close> and \<^verbatim>\<open>total_found\<close> the length of the property
  list; and there is a response whenever no entry is \<^verbatim>\<open>null\<close> or \<^verbatim>\<open>undefined\<close>.
\<close>

theorem import_accounting:
  "(import_result net agentEmail propertiesData = Inr r \<longrightarrow>
      total_found r = total r + skipped r + errors r \<and>
      total r = length (properties r) \<and>
      total_found r = length (propertyList_of propertiesData))
   \<and> (import_step net agentEmail s propertyRef = Inr s' \<longrightarrow>
        (skipped s' = skipped s + 1 \<and> errors s' = errors s \<and>
         processedProperties s' = processedProperties s) \<or>
        (skipped s' = skipped s \<and> errors s' = errors s + 1 \<and>
         processedProperties s' = processedProperties s) \<or>
        (skipped s' = skipped s \<and> errors s' = errors s \<and>
         (\<exists>k. processedProperties s' = processedProperties s @ [k])))
   \<and> ((\<forall>x \<in> set (propertyList_of propertiesData). x \<noteq> Undefined \<and> x \<noteq> Null) \<longrightarrow>
        (\<exists>r. import_result net agentEmail propertiesData = Inr r))"
proof -
  have response: "import_result net agentEmail propertiesData = Inr r \<longrightarrow>
      total_found r = total r + skipped r + errors r \<and>
      total r = length (properties r) \<and>
      total_found r = length (propertyList_of propertiesData)"
  proof
    assume a: "import_result net agentEmail propertiesData = Inr r"
    then obtain sf where
      loop: "import_loop net agentEmail initial_state (propertyList_of propertiesData) = Inr sf"
      and r: "r = \<lparr>skipped = skipped sf, errors = errors sf, success = True,
                  properties = processedProperties sf,
                  total = length (processedProperties sf),
                  total_found = length (propertyList_of propertiesData)\<rparr>"
      by (auto simp add: import_result_def Let_def split: sum.splits)
    from import_loop_count [OF loop]
    have "length (processedProperties sf) + skipped sf + errors sf =
        length (propertyList_of propertiesData)"
      by (simp add: initial_state_def)
    with r show "total_found r = total r + skipped r + errors r \<and>
      total r = length (properties r) \<and>
      total_found r = length (propertyList_of propertiesData)"
      by simp
  qed
  have step: "import_step net agentEmail s propertyRef = Inr s' \<longrightarrow>
        (skipped s' = skipped s + 1 \<and> errors s' = errors s \<and>
         processedProperties s' = processedProperties s) \<or>
        (skipped s' = skipped s \<and> errors s' = errors s + 1 \<and>
         processedProperties s' = processedProperties s) \<or>
        (skipped s' = skipped s \<and> errors s' = errors s \<and>
         (\<exists>k. processedProperties s' = processedProperties s @ [k]))"
    using import_step_count [of net agentEmail s propertyRef s'] by blast
  have total: "(\<forall>x \<in> set (propertyList_of propertiesData). x \<noteq> Undefined \<and> x \<noteq> Null) \<longrightarrow>
        (\<exists>r. import_result net agentEmail propertiesData = Inr r)"
  proof
    assume "\<forall>x \<in> set (propertyList_of propertiesData). x \<noteq> Undefined \<and> x \<noteq> Null"
    then obtain sf where
      "import_loop net agentEmail initial_state (propertyList_of propertiesData) = Inr sf"
      using import_loop_total by blast
    then show "\<exists>r. import_result net agentEmail propertiesData = Inr r"
      by (simp add: import_result_def Let_def)
  qed
  from response step total show ?thesis
    by (intro conjI)
qed

lemma list_example_refs: "propertyList_of list_example = [reference_example, missing_url_example]"
  by (simp add: propertyList_of_def list_example_def or_else_def as_list_def)

theorem import_accounting_witness:
  "import_result vendor_example Undefined list_example = Inr response_example \<and>
   total_found response_example = 2 \<and> total response_example = 1 \<and>
   skipped response_example = 1 \<and> errors response_example = 0 \<and>
   total_found response_example =
     total response_example + skipped response_example + errors response_example \<and>
   import_step vendor_example Undefined initial_state reference_example =
     Inr \<lparr>skipped = 0, errors = 0,
          processedProperties = [the (mapProperty four_bed_example Undefined)],
          requested = [Str ''http://v/7''], mapper_calls = [four_bed_example]\<rparr>"
proof -
  have res: "import_result vendor_example Undefined list_example = Inr response_example"
    unfolding import_result_def list_example_refs Let_def loop_example response_example_def
    by simp
  have step: "import_step vendor_example Undefined initial_state reference_example =
     Inr \<lparr>skipped = 0, errors = 0,
          processedProperties = [the (mapProperty four_bed_example Undefined)],
          requested = [Str ''http://v/7''], mapper_calls = [four_bed_example]\<rparr>"
    by (simp add: import_step_complete_eq reference_example_complete reference_example_url
        detail_example)
  from import_accounting [of vendor_example Undefined list_example response_example] res
  have "total_found response_example =
     total response_example + skipped response_example + errors response_example"
    by blast
  with res step show ?thesis
    by (simp add: response_example_def)
qed

section \<open>The token manager: properties\<close>

lemma fresh_token_iff:
  "fresh_token now w = Some t \<longleftrightarrow>
     cachedToken w = Some t \<and> t \<noteq> [] \<and>
     (\<exists>ts. tokenTimestamp w = Some ts \<and> ts \<noteq> 0 \<and> now - ts < TOKEN_TTL)"
  by (auto simp add: fresh_token_def split: option.splits if_splits)

lemma fresh_token_alt_iff:
  "fresh_token_alt now w = Some t \<longleftrightarrow>
     cachedToken w = Some t \<and> t \<noteq> [] \<and>
     (\<exists>expiry. tokenExpiry w = Some expiry \<and> expiry \<noteq> 0 \<and> now < expiry)"
  by (auto simp add: fresh_token_alt_def split: option.splits if_splits)

lemma fetch_token_cases:
  "(grants reply token \<longrightarrow>
      fetch_token now reply w =
        (Inr token, w\<lparr>auth_requests := auth_requests w + 1, cachedToken := Some token,
                       tokenTimestamp := Some now\<rparr>))
   \<and> ((\<forall>t. \<not> grants reply t) \<longrightarrow>
        (\<exists>e. fetch_token now reply w = (Inl e, w\<lparr>auth_requests := auth_requests w + 1\<rparr>)))"
  by (cases reply) (auto simp add: grants_def fetch_token_def Let_def split: option.splits)

lemma fetch_token_alt_cases:
  "(grants reply token \<longrightarrow>
      fetch_token_alt now reply w =
        (Inr token, w\<lparr>auth_requests := auth_requests w + 1, cachedToken := Some token,
                       tokenExpiry := Some (now + 600000)\<rparr>))
   \<and> ((\<forall>t. \<not> grants reply t) \<longrightarrow>
        (\<exists>e. fetch_token_alt now reply w = (Inl e, w\<lparr>auth_requests := auth_requests w + 1\<rparr>)))"
  by (cases reply) (auto simp add: grants_def fetch_token_alt_def Let_def split: option.splits)

lemma fetch_token_requests:
  "auth_requests (snd (fetch_token now reply w)) = auth_requests w + 1"
  by (cases reply) (auto simp add: fetch_token_def Let_def split: option.splits)

lemma fetch_token_alt_requests:
  "auth_requests (snd (fetch_token_alt now reply w)) = auth_requests w + 1"
  by (cases reply) (auto simp add: fetch_token_alt_def Let_def split: option.splits)

lemma getToken_requests:
  "auth_requests (snd (getToken now reply w)) =
     auth_requests w + (if fresh_token now w = None then 1 else 0)"
  by (cases "fresh_token now w") (simp_all add: getToken_def fetch_token_requests)

lemma getToken_alt_requests:
  "auth_requests (snd (getToken_alt now now' reply w)) =
     auth_requests w + (if fresh_token_alt now w = None then 1 else 0)"
  by (cases "fresh_token_alt now w") (simp_all add: getToken_alt_def fetch_token_alt_requests)

text \<open>
  C8 (as amended), for \<^verbatim>\<open>getToken\<close> of src/index.js and, in the second half, for the
  variant of src/unnamed/part_000. The cache test passes exactly when a token is cached
  that is not the empty string, stored at a clock reading (an expiry, in the variant)
  that is not 0, and its age is below the TTL. A call that passes it returns the cached
  token, sends no request and changes nothing. A call that does not pass it sends
  exactly one request; when the answer has a status from 200 to 299 and a token header
  that is not empty, it returns that token and stores it with the current time;
  otherwise (an unreachable vendor, another status, no token header) it fails, with no
  second request, and the cached token stays as it was. So
  when the second of two calls in a row passes the cache test, it returns the cached
  token with no request, and the two calls together send one request if the first did
  not pass the test and none if it did.
\<close>

theorem getToken_reuse:
  "(fresh_token now w = Some t \<longleftrightarrow>
      cachedToken w = Some t \<and> t \<noteq> [] \<and>
      (\<exists>ts. tokenTimestamp w = Some ts \<and> ts \<noteq> 0 \<and> now - ts < TOKEN_TTL))
   \<and> (fresh_token now w = Some t \<longrightarrow> getToken now reply w = (Inr t, w))
   \<and> (fresh_token now w = None \<and> grants reply token \<longrightarrow>
        getToken now reply w =
          (Inr token, w\<lparr>auth_requests := auth_requests w + 1, cachedToken := Some token,
                         tokenTimestamp := Some now\<rparr>))
   \<and> (fresh_token now w = None \<and> (\<forall>t. \<not> grants reply t) \<longrightarrow>
        (\<exists>e. getToken now reply w = (Inl e, w\<lparr>auth_requests := auth_requests w + 1\<rparr>)))
   \<and> (\<not> response_ok code \<or> (headers ''token'' = None \<and> headers ''Token'' = None) \<longrightarrow>
        \<not> grants (Reply code headers) token)
   \<and> \<not> grants Unreachable token
   \<and> (fresh_token now2 (snd (getToken now1 reply1 w)) = Some t \<longrightarrow>
        getToken now2 reply2 (snd (getToken now1 reply1 w)) = (Inr t, snd (getToken now1 reply1 w)) \<and>
        auth_requests (snd (getToken now2 reply2 (snd (getToken now1 reply1 w)))) =
          auth_requests w + (if fresh_token now1 w = None then 1 else 0))
   \<and> (fresh_token_alt now w' = Some t \<longleftrightarrow>
        cachedToken w' = Some t \<and> t \<noteq> [] \<and>
        (\<exists>expiry. tokenExpiry w' = Some expiry \<and> expiry \<noteq> 0 \<and> now < expiry))
   \<and> (fresh_token_alt now w' = Some t \<longrightarrow> getToken_alt now now_stored reply w' = (Inr t, w'))
   \<and> (fresh_token_alt now w' = None \<and> grants reply token \<longrightarrow>
        getToken_alt now now_stored reply w' =
          (Inr token, w'\<lparr>auth_requests := auth_requests w' + 1, cachedToken := Some token,
                          tokenExpiry := Some (now_stored + 600000)\<rparr>))
   \<and> (fresh_token_alt now w' = None \<and> (\<forall>t. \<not> grants reply t) \<longrightarrow>
        (\<exists>e. getToken_alt now now_stored reply w' =
                (Inl e, w'\<lparr>auth_requests := auth_requests w' + 1\<rparr>)))
   \<and> (fresh_token_alt now2 (snd (getToken_alt now1 now_stored reply1 w')) = Some t \<longrightarrow>
        getToken_alt now2 now_stored2 reply2 (snd (getToken_alt now1 now_stored reply1 w')) =
          (Inr t, snd (getToken_alt now1 now_stored reply1 w')) \<and>
        auth_requests
          (snd (getToken_alt now2 now_stored2 reply2 (snd (getToken_alt now1 now_stored reply1 w')))) =
          auth_requests w' + (if fresh_token_alt now1 w' = None then 1 else 0))"
proof -
  have hit: "fresh_token now w = Some t \<longrightarrow> getToken now reply w = (Inr t, w)" for now w t reply
    by (simp add: getToken_def)
  have ok: "fresh_token now w = None \<and> grants reply token \<longrightarrow>
        getToken now reply w =
          (Inr token, w\<lparr>auth_requests := auth_requests w + 1, cachedToken := Some token,
                         tokenTimestamp := Some now\<rparr>)"
    using fetch_token_cases [of reply token now w] by (auto simp add: getToken_def)
  have fail: "fresh_token now w = None \<and> (\<forall>t. \<not> grants reply t) \<longrightarrow>
        (\<exists>e. getToken now reply w = (Inl e, w\<lparr>auth_requests := auth_requests w + 1\<rparr>))"
    using fetch_token_cases [of reply token now w] by (auto simp add: getToken_def)
  have two: "fresh_token now2 (snd (getToken now1 reply1 w)) = Some t \<longrightarrow>
        getToken now2 reply2 (snd (getToken now1 reply1 w)) = (Inr t, snd (getToken now1 reply1 w)) \<and>
        auth_requests (snd (getToken now2 reply2 (snd (getToken now1 reply1 w)))) =
          auth_requests w + (if fresh_token now1 w = None then 1 else 0)"
    using hit [of now2 "snd (getToken now1 reply1 w)" t reply2] getToken_requests [of now1 reply1 w]
    by simp
  have hit': "fresh_token_alt now w' = Some t \<longrightarrow> getToken_alt now now_stored reply w' = (Inr t, w')"
    for now w' t reply now_stored
    by (simp add: getToken_alt_def)
  have ok': "fresh_token_alt now w' = None \<and> grants reply token \<longrightarrow>
        getToken_alt now now_stored reply w' =
          (Inr token, w'\<lparr>auth_requests := auth_requests w' + 1, cachedToken := Some token,
                          tokenExpiry := Some (now_stored + 600000)\<rparr>)"
    using fetch_token_alt_cases [of reply token now_stored w'] by (auto simp add: getToken_alt_def)
  have fail': "fresh_token_alt now w' = None \<and> (\<forall>t. \<not> grants reply t) \<longrightarrow>
        (\<exists>e. getToken_alt now now_stored reply w' =
                (Inl e, w'\<lparr>auth_requests := auth_requests w' + 1\<rparr>))"
    using fetch_token_alt_cases [of reply token now_stored w'] by (auto simp add: getToken_alt_def)
  have two': "fresh_token_alt now2 (snd (getToken_alt now1 now_stored reply1 w')) = Some t \<longrightarrow>
        getToken_alt now2 now_stored2 reply2 (snd (getToken_alt now1 now_stored reply1 w')) =
          (Inr t, snd (getToken_alt now1 now_stored reply1 w')) \<and>
        auth_requests
          (snd (getToken_alt now2 now_stored2 reply2 (snd (getToken_alt now1 now_stored reply1 w')))) =
          auth_requests w' + (if fresh_token_alt now1 w' = None then 1 else 0)"
    using hit' [of now2 "snd (getToken_alt now1 now_stored reply1 w')" t now_stored2 reply2]
      getToken_alt_requests [of now1 now_stored reply1 w']
    by simp
  have refused: "\<not> response_ok code \<or> (headers ''token'' = None \<and> headers ''Token'' = None) \<longrightarrow>
        \<not> grants (Reply code headers) token"
    by (auto simp add: grants_def token_header_def str_or_def)
  have unreachable: "\<not> grants Unreachable token"
    by (simp add: grants_def)
  from fresh_token_iff [of now w t] hit [of now w t reply] ok fail refused unreachable two
    fresh_token_alt_iff [of now w' t] hit' [of now w' t now_stored reply] ok' fail' two'
  show ?thesis
    by (intro conjI)
qed

lemma cold_example_stale: "fresh_token 1000 cold_example = None"
  by (simp add: fresh_token_def cold_example_def)

lemma reply_example_grants: "grants reply_example ''T''"
  by (simp add: grants_def reply_example_def response_ok_def token_header_def str_or_def)

lemma warm_example_fresh: "fresh_token 2000 warm_example = Some ''T''"
  by (simp add: fresh_token_def warm_example_def TOKEN_TTL_def)

theorem getToken_reuse_witness:
  "fresh_token 1000 cold_example = None \<and> grants reply_example ''T'' \<and>
   getToken 1000 reply_example cold_example = (Inr ''T'', warm_example) \<and>
   fresh_token 2000 (snd (getToken 1000 reply_example cold_example)) = Some ''T'' \<and>
   getToken 2000 Unreachable (snd (getToken 1000 reply_example cold_example)) =
     (Inr ''T'', warm_example) \<and>
   auth_requests (snd (getToken 2000 Unreachable (snd (getToken 1000 reply_example cold_example)))) =
     auth_requests cold_example + 1"
proof -
  from getToken_reuse
    [where now = 1000 and w = cold_example and reply = reply_example and token = "''T''"]
    cold_example_stale reply_example_grants
  have first: "getToken 1000 reply_example cold_example =
      (Inr ''T'', cold_example\<lparr>auth_requests := auth_requests cold_example + 1,
         cachedToken := Some ''T'', tokenTimestamp := Some 1000\<rparr>)"
    by blast
  then have first': "getToken 1000 reply_example cold_example = (Inr ''T'', warm_example)"
    by (simp add: cold_example_def warm_example_def)
  then have fresh: "fresh_token 2000 (snd (getToken 1000 reply_example cold_example)) = Some ''T''"
    by (simp add: warm_example_fresh)
  from getToken_reuse
    [where ?now2.0 = 2000 and ?now1.0 = 1000 and ?reply1.0 = reply_example and w = cold_example
       and t = "''T''" and ?reply2.0 = Unreachable]
    fresh
  have "getToken 2000 Unreachable (snd (getToken 1000 reply_example cold_example)) =
        (Inr ''T'', snd (getToken 1000 reply_example cold_example)) \<and>
      auth_requests (snd (getToken 2000 Unreachable (snd (getToken 1000 reply_example cold_example)))) =
        auth_requests cold_example + (if fresh_token 1000 cold_example = None then 1 else 0)"
    by blast
  with first' fresh cold_example_stale reply_example_grants show ?thesis
    by (simp add: warm_example_def cold_example_def)
qed

text \<open>
  C8 as stated fails when the first call of the pair is itself served from the cache:
  with a token stored at 1000, calls at 2000 and at 3000 both return it, the second
  while the token is cached and younger than the TTL, and no request is sent across the
  two calls, not exactly one.
\<close>

theorem getToken_warm_counterexample:
  "fresh_token 3000 (snd (getToken 2000 Unreachable warm_example)) = Some ''T'' \<and>
   getToken 2000 Unreachable warm_example = (Inr ''T'', warm_example) \<and>
   getToken 3000 Unreachable (snd (getToken 2000 Unreachable warm_example)) =
     (Inr ''T'', warm_example) \<and>
   auth_requests (snd (getToken 3000 Unreachable (snd (getToken 2000 Unreachable warm_example)))) =
     auth_requests warm_example"
  by (simp add: getToken_def fresh_token_def warm_example_def TOKEN_TTL_def)

end
